theory Spec2Isabelle
  imports Main "HOL-Library.Char_ord" "HOL-Library.List_Lexorder"
begin

section \<open>Avro schema objects\<close>

text \<open>
  The generator (scripts/process_schemas.py) works on the schema objects that
  the Avro library returns from \<open>avro.schema.parse\<close>. Their classes are
  the constructors of \<open>schema\<close>: a primitive schema carries its type name
  (\<open>''null''\<close>, \<open>''string''\<close>, ...), an enum its name, documentation and
  symbols, a record its name, documentation and fields. A field has a name, a
  type, the flag \<open>has_default\<close> and its default value, kept here as the
  text that \<open>str.format\<close> prints for it. A field that refers to a named
  type holds that type's schema object, as in the library.
\<close>

datatype schema =
    PrimitiveSchema string
  | FixedSchema string nat
  | EnumSchema string "string option" "string list"
  | ArraySchema schema
  | MapSchema schema
  | UnionSchema "schema list"
  | RecordSchema string "string option" "field list"
and field =
    Field (field_name: string) (field_type: schema) (has_default: bool) (field_default: string)

text \<open>
  The exceptions the generator can meet. \<open>SchemaUnionAssumptionsViolated\<close>
  is the \<open>Exception("Schema union assumptions violated")\<close> of
  getEmbeddedTypes, \<open>FmtError\<close> the exception of formatSchema with the exit
  status and error text of \<open>fmt\<close>; the others are Python's and Avro's.
\<close>

datatype error =
    AttributeError
  | IndexError
  | KeyError
  | SchemaParseException
  | SchemaUnionAssumptionsViolated
  | FmtError int string

text \<open>Only named schemas (fixed, enum, record) have the attribute \<open>name\<close>.\<close>

fun schema_name :: "schema \<Rightarrow> error + string" where
  "schema_name (FixedSchema n _) = Inr n"
| "schema_name (EnumSchema n _ _) = Inr n"
| "schema_name (RecordSchema n _ _) = Inr n"
| "schema_name _ = Inl AttributeError"

text \<open>Enum and record schemas have the property \<open>doc\<close> (None when absent).\<close>

fun schema_doc :: "schema \<Rightarrow> error + string option" where
  "schema_doc (EnumSchema _ d _) = Inr d"
| "schema_doc (RecordSchema _ d _) = Inr d"
| "schema_doc _ = Inl AttributeError"

section \<open>What the generator uses from outside\<close>

text \<open>
  Library functions and the external program \<open>fmt\<close> are parameters of the
  model: \<open>parse\<close> is \<open>avro.schema.parse\<close> (None when it raises),
  \<open>dumpsWithoutDocs\<close> is \<open>json.loads\<close>, the loop of formatSchema that
  blanks every \<open>doc\<close> entry, and \<open>json.dumps\<close>; \<open>fmt\<close> gives the
  exit status, output and error text of the \<open>fmt\<close> subprocess on an
  input; \<open>fill\<close> is \<open>textwrap.fill\<close> with width 62 and the
  indentation of writeConstructor.
\<close>

record externals =
  parse :: "string \<Rightarrow> schema option"
  dumpsWithoutDocs :: "string \<Rightarrow> string"
  fmt :: "string \<Rightarrow> int \<times> string \<times> string"
  fill :: "string \<Rightarrow> string"

section \<open>Text output\<close>

text \<open>
  The output file is its content, a string. \<open>print\<close> with \<open>file=\<close>
  appends its text and a newline. A writing function takes the content so far
  and returns the content when it ends together with the exception that ended
  it, if one did: what was printed before an exception stays in the file.
\<close>

type_synonym written = "error option \<times> string"

definition print :: "string \<Rightarrow> string \<Rightarrow> string" where
  "print text out = out @ text @ ''\<newline>''"

definition join :: "string \<Rightarrow> string list \<Rightarrow> string" where
  "join sep xs = (case xs of [] \<Rightarrow> [] | y # ys \<Rightarrow> y @ concat (map (\<lambda>x. sep @ x) ys))"

definition spaces :: "nat \<Rightarrow> string" where
  "spaces k = replicate k (CHR '' '')"

section \<open>SchemaClass\<close>

record SchemaClass =
  sourceFile :: string
  schemaSource :: string
  schema :: schema
  name :: string

text \<open>
  \<open>SchemaClass.__init__\<close>: read the file (its content is given), parse it,
  take the schema's name.
\<close>

definition SchemaClass_init :: "externals \<Rightarrow> string \<Rightarrow> string \<Rightarrow> error + SchemaClass" where
  "SchemaClass_init ext path source =
     (case parse ext source of
        None \<Rightarrow> Inl SchemaParseException
      | Some s \<Rightarrow>
          (case schema_name s of
             Inl e \<Rightarrow> Inl e
           | Inr n \<Rightarrow> Inr \<lparr>sourceFile = path, schemaSource = source, schema = s, name = n\<rparr>))"

text \<open>
  getFields: the fields sorted by name. \<open>sorted\<close> is stable and compares
  strings character by character, as \<open>sort_key\<close> does with the
  lexicographic order on strings. Only a record schema has \<open>fields\<close>.
\<close>

definition getFields :: "SchemaClass \<Rightarrow> error + field list" where
  "getFields self =
     (case schema self of
        RecordSchema _ _ fs \<Rightarrow> Inr (sort_key field_name fs)
      | _ \<Rightarrow> Inl AttributeError)"

text \<open>
  The loop of getEmbeddedTypes over the sorted fields, \<open>ret\<close> being the list
  built so far. \<open>schemas[0]\<close> and \<open>schemas[1]\<close> are read before the
  test on the first branch, so a union with fewer than two branches raises
  IndexError.
\<close>

fun embeddedLoop :: "field list \<Rightarrow> (string \<times> string) list \<Rightarrow> error + (string \<times> string) list" where
  "embeddedLoop [] ret = Inr ret"
| "embeddedLoop (f # fs) ret =
     (case field_type f of
        ArraySchema items \<Rightarrow>
          (case items of
             RecordSchema n _ _ \<Rightarrow> embeddedLoop fs (ret @ [(field_name f, n)])
           | _ \<Rightarrow> embeddedLoop fs ret)
      | RecordSchema n _ _ \<Rightarrow> embeddedLoop fs (ret @ [(field_name f, n)])
      | UnionSchema schemas \<Rightarrow>
          (case schemas of
             [] \<Rightarrow> Inl IndexError
           | [t0] \<Rightarrow> Inl IndexError
           | t0 # t1 # _ \<Rightarrow>
               if t0 = PrimitiveSchema ''null'' then
                 (case t1 of
                    RecordSchema n _ _ \<Rightarrow> embeddedLoop fs (ret @ [(field_name f, n)])
                  | _ \<Rightarrow> embeddedLoop fs ret)
               else Inl SchemaUnionAssumptionsViolated)
      | _ \<Rightarrow> embeddedLoop fs ret)"

definition getEmbeddedTypes :: "SchemaClass \<Rightarrow> error + (string \<times> string) list" where
  "getEmbeddedTypes self =
     (case schema self of
        RecordSchema _ _ _ \<Rightarrow>
          (case getFields self of Inl e \<Rightarrow> Inl e | Inr fs \<Rightarrow> embeddedLoop fs [])
      | _ \<Rightarrow> Inr [])"

text \<open>
  formatSchema: the schema source without its documentation, passed through
  \<open>fmt\<close>; an exit status other than 0 raises.
\<close>

definition formatSchema :: "externals \<Rightarrow> SchemaClass \<Rightarrow> error + string" where
  "formatSchema ext self =
     (let jsonData = dumpsWithoutDocs ext (schemaSource self);
          (exitStatus, output, err) = fmt ext jsonData
      in if exitStatus \<noteq> 0 then Inl (FmtError exitStatus err) else Inr output)"

text \<open>
  formatRequiredFields: the fields without a default value, written as the
  Python expression \<open>set([...])\<close>, on one line when there are fewer than
  two of them and one name per line otherwise.
\<close>

definition formatRequiredFields :: "SchemaClass \<Rightarrow> error + string" where
  \<open>formatRequiredFields self =
     (case getFields self of
        Inl e \<Rightarrow> Inl e
      | Inr sortedFields \<Rightarrow>
          (let fs = filter (\<lambda>field. \<not> has_default field) sortedFields
           in Inr (if length fs < 2
                   then ''set(['' @ concat (map (\<lambda>field. ''"'' @ field_name field @ ''"'') fs)
                        @ ''])''
                   else ''set([\<newline>''
                        @ concat (map (\<lambda>field. spaces 8 @ ''"'' @ field_name field @ ''",\<newline>'')
                            fs)
                        @ spaces 4 @ ''])'')))\<close>

definition writeConstructor :: "externals \<Rightarrow> SchemaClass \<Rightarrow> string \<Rightarrow> written" where
  \<open>writeConstructor ext self out =
     (case getFields self of
        Inl e \<Rightarrow> (Some e, out)
      | Inr fs \<Rightarrow>
          (let out1 = print (''    __slots__ = ['' @ [CHR 0x27]
                              @ fill ext (join ([CHR 0x27] @ '', '' @ [CHR 0x27])
                                   (map field_name fs))
                              @ [CHR 0x27] @ '']'') out;
               out2 = print [] out1;
               out3 = print ''    def __init__(self):'' out2
           in (None,
               foldl (\<lambda>acc field.
                    print (''        self.'' @ field_name field @ '' = '' @ field_default field) acc)
                 out3 fs)))\<close>

text \<open>
  writeEmbeddedTypesClassMethods prints two lines before it calls
  getEmbeddedTypes, so they are in the file when the call raises.
\<close>

definition embeddedTypesText :: "(string \<times> string) list \<Rightarrow> string" where
  \<open>embeddedTypesText et =
     (if length et = 0 then spaces 8 @ ''embeddedTypes = {}''
      else spaces 8 @ ''embeddedTypes = {\<newline>''
           @ concat (map (\<lambda>(fn, ft). spaces 12 @ [CHR 0x27] @ fn @ [CHR 0x27] @ '': '' @ ft
                            @ '',\<newline>'') et)
           @ spaces 8 @ ''}'')\<close>

definition writeEmbeddedTypesClassMethods :: "SchemaClass \<Rightarrow> string \<Rightarrow> written" where
  \<open>writeEmbeddedTypesClassMethods self out =
     (let out1 = print ''    @classmethod'' out;
          out2 = print ''    def isEmbeddedType(cls, fieldName):'' out1
      in case getEmbeddedTypes self of
           Inl e \<Rightarrow> (Some e, out2)
         | Inr et \<Rightarrow>
             (let string = embeddedTypesText et;
                  out3 = print string out2;
                  out4 = print (spaces 8 @ ''return fieldName in embeddedTypes'') out3;
                  out5 = print [] out4;
                  out6 = print ''    @classmethod'' out5;
                  out7 = print ''    def getEmbeddedType(cls, fieldName):'' out6;
                  out8 = print string out7;
                  out9 = print (spaces 8 @ ''return embeddedTypes[fieldName]'') out8
              in (None, print [] out9)))\<close>

text \<open>
  \<open>SchemaClass.write\<close>: the class statement, the documentation, then for
  a record the schema source, the required fields, the embedded-type methods
  and the constructor, and for an enum one constant per symbol.
\<close>

definition writeRecord :: "externals \<Rightarrow> SchemaClass \<Rightarrow> string \<Rightarrow> written" where
  \<open>writeRecord ext self out =
     (case formatSchema ext self of
        Inl e \<Rightarrow> (Some e, out)
      | Inr formatted \<Rightarrow>
          (let out1 = print (''    _schemaSource = """\<newline>'' @ formatted @ ''"""'') out;
               out2 = print ''    schema = avro.schema.parse(_schemaSource)'' out1
           in case formatRequiredFields self of
                Inl e \<Rightarrow> (Some e, out2)
              | Inr required \<Rightarrow>
                  (let out3 = print (''    requiredFields = '' @ required) out2;
                       out4 = print [] out3
                   in case writeEmbeddedTypesClassMethods self out4 of
                        (Some e, out5) \<Rightarrow> (Some e, out5)
                      | (None, out5) \<Rightarrow> writeConstructor ext self out5)))\<close>

definition SchemaClass_write :: "externals \<Rightarrow> SchemaClass \<Rightarrow> string \<Rightarrow> written" where
  \<open>SchemaClass_write ext self out =
     (let superclass = (case schema self of EnumSchema _ _ _ \<Rightarrow> ''object'' | _ \<Rightarrow> ''ProtocolElement'')
      in case schema_name (schema self) of
           Inl e \<Rightarrow> (Some e, out)
         | Inr n \<Rightarrow>
             (let out1 = print (''\<newline>\<newline>class '' @ n @ ''('' @ superclass @ ''):'') out
              in case schema_doc (schema self) of
                   Inl e \<Rightarrow> (Some e, out1)
                 | Inr d \<Rightarrow>
                     (let doc = (case d of None \<Rightarrow> ''No documentation'' | Some text \<Rightarrow> text);
                          out2 = print (''    """\<newline>'' @ doc @ ''\<newline>    """'') out1
                      in case schema self of
                           RecordSchema _ _ _ \<Rightarrow> writeRecord ext self out2
                         | EnumSchema _ _ symbols \<Rightarrow>
                             (None,
                              foldl (\<lambda>acc symbol.
                                   print (''    '' @ symbol @ '' = "'' @ symbol @ ''"'') acc)
                                out2 symbols)
                         | _ \<Rightarrow> (None, out2))))\<close>

section \<open>The two regular expressions of SchemaGenerator\<close>

text \<open>
  \<open>re.search\<close> is used with \<open>Search.+Request\<close>, \<open>Search.+Response\<close>
  and \<open>Search(.+)Request\<close> only: a literal, \<open>.+\<close>, a literal. The
  search tries the start positions from the left. At a start position the
  first literal must be read; \<open>.+\<close> then takes the longest run of
  characters other than newline and gives characters back one at a time,
  down to one character, until the second literal follows. The result is the
  text taken by \<open>.+\<close> (the group of the third expression), None when
  there is no match.
\<close>

definition startswith :: "string \<Rightarrow> string \<Rightarrow> bool" where
  "startswith s p = (take (length p) s = p)"

fun backtrack :: "string \<Rightarrow> string \<Rightarrow> nat \<Rightarrow> string option" where
  "backtrack suffix s 0 = None"
| "backtrack suffix s (Suc k) =
     (if startswith (drop (Suc k) s) suffix then Some (take (Suc k) s)
      else backtrack suffix s k)"

definition matchAt :: "string \<Rightarrow> string \<Rightarrow> string \<Rightarrow> string option" where
  "matchAt pre suffix s =
     (if startswith s pre
      then (let rest = drop (length pre) s
            in backtrack suffix rest (length (takeWhile (\<lambda>c. c \<noteq> CHR 0x0A) rest)))
      else None)"

fun re_search :: "string \<Rightarrow> string \<Rightarrow> string \<Rightarrow> string option" where
  "re_search pre suffix [] = matchAt pre suffix []"
| "re_search pre suffix (c # cs) =
     (case matchAt pre suffix (c # cs) of
        Some g \<Rightarrow> Some g
      | None \<Rightarrow> re_search pre suffix cs)"

text \<open>
  \<open>lower\<close> on the letters A to Z; the other characters of a name (letters
  a to z, digits, the underscore) are unchanged.
\<close>

definition lower_char :: "char \<Rightarrow> char" where
  "lower_char c =
     (if CHR ''A'' \<le> c \<and> c \<le> CHR ''Z'' then char_of (of_char c + (32::nat)) else c)"

definition lower :: "string \<Rightarrow> string" where
  "lower s = map lower_char s"

section \<open>SchemaGenerator\<close>

record SchemaGenerator =
  version :: string
  schemaDir :: string
  outputFile :: string
  classes :: "SchemaClass list"
  requestClassNames :: "string list"
  responseClassNames :: "string list"
  postSignatures :: "(string \<times> string \<times> string) list"

text \<open>
  The files that \<open>glob\<close> finds in the schema directory are given as the
  list of their paths and contents, in the order \<open>glob\<close> returns them.
\<close>

fun loadClasses :: "externals \<Rightarrow> (string \<times> string) list \<Rightarrow> error + SchemaClass list" where
  "loadClasses ext [] = Inr []"
| "loadClasses ext ((avscFile, source) # files) =
     (case SchemaClass_init ext avscFile source of
        Inl e \<Rightarrow> Inl e
      | Inr cls \<Rightarrow>
          (case loadClasses ext files of
             Inl e \<Rightarrow> Inl e
           | Inr rest \<Rightarrow> Inr (cls # rest)))"

text \<open>
  The loop over \<open>zip(requestClassNames, responseClassNames)\<close>;
  \<open>.groups()\<close> on a failed search would raise AttributeError.
\<close>

fun signaturesLoop ::
  "(string \<times> string) list \<Rightarrow> (string \<times> string \<times> string) list
    \<Rightarrow> error + (string \<times> string \<times> string) list" where
  "signaturesLoop [] sigs = Inr sigs"
| "signaturesLoop ((request, response) # pairs) sigs =
     (case re_search ''Search'' ''Request'' request of
        None \<Rightarrow> Inl AttributeError
      | Some objname \<Rightarrow>
          (let url = ''/'' @ lower objname @ ''/search'';
               tup = (url, request, response)
           in signaturesLoop pairs (sigs @ [tup])))"

definition SchemaGenerator_init ::
  "externals \<Rightarrow> string \<Rightarrow> string \<Rightarrow> string \<Rightarrow> (string \<times> string) list \<Rightarrow> error + SchemaGenerator" where
  "SchemaGenerator_init ext v dir outFile files =
     (case loadClasses ext files of
        Inl e \<Rightarrow> Inl e
      | Inr cs \<Rightarrow>
          (let requests = filter (\<lambda>n. re_search ''Search'' ''Request'' n \<noteq> None) (map name cs);
               responses = filter (\<lambda>n. re_search ''Search'' ''Response'' n \<noteq> None) (map name cs)
           in case signaturesLoop (zip requests responses) [] of
                Inl e \<Rightarrow> Inl e
              | Inr sigs \<Rightarrow>
                  Inr \<lparr>version = v, schemaDir = dir, outputFile = outFile, classes = cs,
                       requestClassNames = requests, responseClassNames = responses,
                       postSignatures = sigs\<rparr>))"

definition HEADER_COMMENT :: string where
  "HEADER_COMMENT =
     ''\<newline>DO NOT EDIT THIS FILE!!\<newline>''
     @ ''This file is automatically generated by the process_schemas.py program\<newline>''
     @ ''in the scripts directory. It is not intended to be edited directly. If\<newline>''
     @ ''you need to update the GA4GH protocol classes, please run the script\<newline>''
     @ ''on the appropriate schema version.\<newline>''"

definition writeHeader :: "SchemaGenerator \<Rightarrow> string \<Rightarrow> string" where
  \<open>writeHeader self out =
     (let out1 = print (''"""'' @ HEADER_COMMENT @ ''"""'') out;
          out2 = print ''from protocol import ProtocolElement'' out1;
          out3 = print ''import avro.schema'' out2;
          out4 = print [] out3;
          versionStr = drop 1 (version self)
      in print (''version = '' @ [CHR 0x27] @ versionStr @ [CHR 0x27]) out4)\<close>

text \<open>
  The loop of \<open>write\<close> over the sorted class names. \<open>classes\<close> is the
  dictionary from names to classes: of two classes with one name, the later
  one of the list is kept.
\<close>

fun writeClasses ::
  "externals \<Rightarrow> (string \<rightharpoonup> SchemaClass) \<Rightarrow> string list \<Rightarrow> string \<Rightarrow> written" where
  "writeClasses ext dict [] out = (None, out)"
| "writeClasses ext dict (n # names) out =
     (case dict n of
        None \<Rightarrow> (Some KeyError, out)
      | Some cls \<Rightarrow>
          (case SchemaClass_write ext cls out of
             (Some e, out1) \<Rightarrow> (Some e, out1)
           | (None, out1) \<Rightarrow> writeClasses ext dict names out1))"

text \<open>
  The loop that writes the entries of \<open>postMethods\<close>: \<open>i\<close> is the index
  of \<open>enumerate\<close>, \<open>len\<close> the length of the whole list.
\<close>

fun writeSignatures :: "nat \<Rightarrow> nat \<Rightarrow> (string \<times> string \<times> string) list \<Rightarrow> string \<Rightarrow> string" where
  "writeSignatures i len [] out = out"
| "writeSignatures i len ((url, request, response) # tups) out =
     (let out1 = (if i \<noteq> 0 then out @ ''     ('' @ [CHR 0x27] else out);
          out2 = out1 @ url @ [CHR 0x27] @ '',\<newline>      '' @ request @ '',\<newline>      ''
                   @ response @ '')'';
          out3 = (if int i = int len - 1 then out2 @ '']\<newline>'' else out2 @ '',\<newline>'')
      in writeSignatures (Suc i) len tups out3)"

text \<open>
  \<open>SchemaGenerator.write\<close>. Opening the output file for writing empties
  it; the result is the content of the file when the \<open>with\<close> block is
  left, by its end or by an exception.
\<close>

definition SchemaGenerator_write :: "externals \<Rightarrow> SchemaGenerator \<Rightarrow> written" where
  "SchemaGenerator_write ext self =
     (let out0 = writeHeader self [];
          names = map name (classes self);
          dict = foldl (\<lambda>d cls. d(name cls \<mapsto> cls)) Map.empty (classes self)
      in case writeClasses ext dict (sort names) out0 of
           (Some e, out1) \<Rightarrow> (Some e, out1)
         | (None, out1) \<Rightarrow>
             (let out2 = out1 @ ''\<newline>postMethods = '' @ [CHR 0x5C] @ ''\<newline>    [('' @ [CHR 0x27]
              in (None,
                  writeSignatures 0 (length (postSignatures self)) (postSignatures self) out2)))"

text \<open>
  A generation run, as the end of \<open>SchemaProcessor.run\<close> does it: build
  the generator from the schema files, then write. The second component is
  the output file afterwards: \<open>old\<close>, its state before the run (None when
  it does not exist), when the generator could not be built.
\<close>

definition generate ::
  "externals \<Rightarrow> string \<Rightarrow> string \<Rightarrow> string \<Rightarrow> (string \<times> string) list \<Rightarrow> string option
     \<Rightarrow> error option \<times> string option" where
  "generate ext v dir outFile files old =
     (case SchemaGenerator_init ext v dir outFile files of
        Inl e \<Rightarrow> (Some e, old)
      | Inr sg \<Rightarrow>
          (case SchemaGenerator_write ext sg of (e, out) \<Rightarrow> (e, Some out)))"

section \<open>Server configuration classes (ga4gh/serverconfig.py)\<close>

text \<open>
  The configuration is a chain of Python classes that hold nothing but class
  attributes. A class is modelled by the attributes assigned in its own body
  and by its base class; reading an attribute walks the chain from the class
  to its bases, as Python's attribute lookup does. The root \<open>object\<close> has
  none of the configuration attributes, so it is the absent base.
\<close>

datatype config_value = IntValue int | BoolValue bool

datatype pyclass = PyClass "(string \<times> config_value) list" "pyclass option"

fun getattr :: "pyclass \<Rightarrow> string \<Rightarrow> config_value option" where
  "getattr (PyClass body None) a = map_of body a"
| "getattr (PyClass body (Some base)) a =
     (case map_of body a of Some v \<Rightarrow> Some v | None \<Rightarrow> getattr base a)"

definition DefaultConfig :: pyclass where
  "DefaultConfig = PyClass
     [(''MAX_CONTENT_LENGTH'', IntValue (2 * 1024 * 1024)),
      (''REQUEST_VALIDATION'', BoolValue False),
      (''RESPONSE_VALIDATION'', BoolValue False)] None"

definition TestConfig :: pyclass where
  "TestConfig = PyClass
     [(''TESTING'', BoolValue True),
      (''REQUEST_VALIDATION'', BoolValue True),
      (''RESPONSE_VALIDATION'', BoolValue True)] (Some DefaultConfig)"

definition TestWithoutValidationConfig :: pyclass where
  "TestWithoutValidationConfig = PyClass
     [(''REQUEST_VALIDATION'', BoolValue False),
      (''RESPONSE_VALIDATION'', BoolValue False)] (Some TestConfig)"

section \<open>The runtime object model (ga4gh/protocol.py)\<close>

text \<open>
  Modelled from the spec: ga4gh/protocol.py, the module of the runtime
  objects with \<open>toJsonDict\<close> and \<open>fromJsonDict\<close>, is not among the
  sources; the definitions of this section follow sections 3 and 4.4 of the
  specification.
\<close>

text \<open>
  Modelled from the spec: the values held by attributes and JSON mappings.
  A JSON value is a value without \<open>PObj\<close>; \<open>PObj T attrs\<close> is a Protocol
  Object of the record type \<open>T\<close> with its attributes in the order of the
  fields of \<open>T\<close>.
\<close>

datatype pyval =
    PNone
  | PBool bool
  | PInt int
  | PStr string
  | PList "pyval list"
  | PDict "(string \<times> pyval) list"
  | PObj string "(string \<times> pyval) list"

text \<open>
  Modelled from the spec: the Type Descriptor of a record type, as far as the
  two operations use it: the fields with their default values, and the map of
  the embedded types from field names to type names. The descriptors of a
  protocol version are a function from type names.
\<close>

record descriptor =
  fieldDefaults :: "(string \<times> pyval) list"
  embeddedTypes :: "(string \<times> string) list"

type_synonym registry = "string \<Rightarrow> descriptor"

text \<open>
  Modelled from the spec: \<open>toJsonDict\<close> gives a mapping keyed by field
  name; the value of an embedded field is serialized in turn, a nested object
  as its mapping and a sequence element by element, and any other value
  passes through as it is. The attribute set of an object is the field set of
  its type, so the fields are visited by visiting the attributes.
\<close>

fun toJsonDict :: "registry \<Rightarrow> pyval \<Rightarrow> pyval" where
  "toJsonDict reg (PObj T attrs) =
     PDict (map (\<lambda>(f, v).
        (f, case map_of (embeddedTypes (reg T)) f of
              None \<Rightarrow> v
            | Some U \<Rightarrow>
                (case v of
                   PList vs \<Rightarrow> PList (map (toJsonDict reg) vs)
                 | PObj _ _ \<Rightarrow> toJsonDict reg v
                 | _ \<Rightarrow> v))) attrs)"
| "toJsonDict reg v = v"

text \<open>
  Modelled from the spec: \<open>fromJsonDict\<close> builds an object of the given
  type; a field present in the mapping takes the value found there, a nested
  mapping or a sequence under an embedded field being constructed in turn
  with the embedded type, and an absent field keeps its default. It never
  raises: a value of another form is taken as it is.
\<close>

function fromJsonDict :: "registry \<Rightarrow> string \<Rightarrow> pyval \<Rightarrow> pyval" where
  "fromJsonDict reg T (PDict m) =
     PObj T (map (\<lambda>(f, dflt).
        (f, case map_of m f of
              None \<Rightarrow> dflt
            | Some j \<Rightarrow>
                (case map_of (embeddedTypes (reg T)) f of
                   None \<Rightarrow> j
                 | Some U \<Rightarrow>
                     (case j of
                        PList js \<Rightarrow> PList (map (fromJsonDict reg U) js)
                      | PDict _ \<Rightarrow> fromJsonDict reg U j
                      | _ \<Rightarrow> j)))) (fieldDefaults (reg T)))"
| "fromJsonDict reg T PNone = PNone"
| "fromJsonDict reg T (PBool b) = PBool b"
| "fromJsonDict reg T (PInt i) = PInt i"
| "fromJsonDict reg T (PStr s) = PStr s"
| "fromJsonDict reg T (PList vs) = PList vs"
| "fromJsonDict reg T (PObj U attrs) = PObj U attrs"
  by pat_completeness auto
termination
proof (relation "measure (\<lambda>(reg, T, v). size v)", goal_cases)
  case 1
  show ?case by simp
next
  case (2 reg T m x f dflt j U js el)
  have "size el < size (PList js)"
    using \<open>el \<in> set js\<close> by (induction js) auto
  moreover have "size j < size (PDict m)"
    using \<open>map_of m f = Some j\<close> by (induction m) (auto split: if_splits)
  ultimately show ?case using \<open>j = PList js\<close> by simp
next
  case (3 reg T m x f dflt j U m')
  have "size j < size (PDict m)"
    using \<open>map_of m f = Some j\<close> by (induction m) (auto split: if_splits)
  then show ?case by simp
qed

text \<open>
  Modelled from the spec: a well-formed Protocol Object of type \<open>T\<close> has
  exactly the fields of \<open>T\<close> as its attributes; an embedded field holds
  null, a well-formed object of the embedded type or a sequence of such
  objects, and any other field holds a JSON value (\<open>plain\<close>).
\<close>

fun plain :: "pyval \<Rightarrow> bool" where
  "plain (PList vs) = list_all plain vs"
| "plain (PDict m) = list_all (\<lambda>(k, v). plain v) m"
| "plain (PObj T attrs) = False"
| "plain v = True"

fun wellFormed :: "registry \<Rightarrow> string \<Rightarrow> pyval \<Rightarrow> bool" where
  "wellFormed reg T (PObj T' attrs) =
     (T' = T \<and> map fst attrs = map fst (fieldDefaults (reg T)) \<and> distinct (map fst attrs)
      \<and> list_all (\<lambda>(f, v).
            case map_of (embeddedTypes (reg T)) f of
              None \<Rightarrow> plain v
            | Some U \<Rightarrow>
                (case v of
                   PNone \<Rightarrow> True
                 | PList vs \<Rightarrow> list_all (wellFormed reg U) vs
                 | PObj _ _ \<Rightarrow> wellFormed reg U v
                 | _ \<Rightarrow> False)) attrs)"
| "wellFormed reg T v = False"

text \<open>The two operations on the value of one field, named for the proofs.\<close>

definition serializeField :: "registry \<Rightarrow> string \<Rightarrow> string \<Rightarrow> pyval \<Rightarrow> pyval" where
  "serializeField reg T f v =
     (case map_of (embeddedTypes (reg T)) f of
        None \<Rightarrow> v
      | Some U \<Rightarrow>
          (case v of
             PList vs \<Rightarrow> PList (map (toJsonDict reg) vs)
           | PObj _ _ \<Rightarrow> toJsonDict reg v
           | _ \<Rightarrow> v))"

definition constructField :: "registry \<Rightarrow> string \<Rightarrow> string \<Rightarrow> pyval \<Rightarrow> pyval" where
  "constructField reg T f j =
     (case map_of (embeddedTypes (reg T)) f of
        None \<Rightarrow> j
      | Some U \<Rightarrow>
          (case j of
             PList js \<Rightarrow> PList (map (fromJsonDict reg U) js)
           | PDict _ \<Rightarrow> fromJsonDict reg U j
           | _ \<Rightarrow> j))"

text \<open>
  Example descriptors, after the three types that the tests of the exceptions
  use, and a response with one alignment.
\<close>

definition readsRegistry :: registry where
  "readsRegistry T =
     (if T = ''SearchReadsResponse'' then
        \<lparr>fieldDefaults = [(''alignments'', PList []), (''nextPageToken'', PNone)],
         embeddedTypes = [(''alignments'', ''ReadAlignment'')]\<rparr>
      else if T = ''ReadAlignment'' then
        \<lparr>fieldDefaults = [(''alignedSequence'', PNone), (''alignment'', PNone)],
         embeddedTypes = [(''alignment'', ''LinearAlignment'')]\<rparr>
      else if T = ''LinearAlignment'' then
        \<lparr>fieldDefaults = [(''cigar'', PList []), (''mappingQuality'', PNone)],
         embeddedTypes = []\<rparr>
      else \<lparr>fieldDefaults = [], embeddedTypes = []\<rparr>)"

definition readsResponse :: pyval where
  "readsResponse =
     PObj ''SearchReadsResponse''
       [(''alignments'',
         PList [PObj ''ReadAlignment''
                  [(''alignedSequence'', PStr ''ACGT''),
                   (''alignment'',
                    PObj ''LinearAlignment''
                      [(''cigar'', PList [PStr ''4M'']), (''mappingQuality'', PInt 30)])],
                PObj ''ReadAlignment''
                  [(''alignedSequence'', PNone), (''alignment'', PNone)]]),
        (''nextPageToken'', PStr ''1'')]"

section \<open>The exception handler (ga4gh/exceptions.py, ga4gh/frontend.py)\<close>

text \<open>
  Modelled from the spec: ga4gh/exceptions.py and the function
  \<open>handleException\<close> of ga4gh/frontend.py are not among the sources, which
  hold their tests only; the definitions of this section follow section 4.5
  of the specification. The kinds are those the specification and the tests
  name.
\<close>

datatype exception_kind =
    ObjectNotFoundException
  | CallSetNotInVariantSetException
  | RequestValidationFailureException
  | ResponseValidationFailureException
  | NotImplementedException
  | ServerError

text \<open>Modelled from the spec: the transport status of each kind.\<close>

fun statusCode :: "exception_kind \<Rightarrow> nat" where
  "statusCode ObjectNotFoundException = 404"
| "statusCode CallSetNotInVariantSetException = 404"
| "statusCode RequestValidationFailureException = 400"
| "statusCode ResponseValidationFailureException = 500"
| "statusCode NotImplementedException = 501"
| "statusCode ServerError = 500"

text \<open>
  Modelled from the spec: an exception that reaches the handler is of a kind
  of the taxonomy or it is not; either way it carries a message.
\<close>

datatype raised = Taxonomy exception_kind string | Unrecognized string

text \<open>
  Modelled from the spec: the wire error body, and what the specification
  leaves open, the numeric code of each kind and the text of the fixed
  ServerError message, as parameters.
\<close>

record wireErrorBody =
  code :: int
  message :: string

record taxonomy_constants =
  errorCode :: "exception_kind \<Rightarrow> int"
  serverErrorMessage :: string

text \<open>
  Modelled from the spec: the central handler returns the status and the
  body of the exception's kind; an exception outside the taxonomy is wrapped
  into a ServerError with the fixed message.
\<close>

definition handleException :: "taxonomy_constants \<Rightarrow> raised \<Rightarrow> nat \<times> wireErrorBody" where
  "handleException tc exc =
     (case exc of
        Taxonomy kind msg \<Rightarrow> (statusCode kind, \<lparr>code = errorCode tc kind, message = msg\<rparr>)
      | Unrecognized msg \<Rightarrow>
          (statusCode ServerError,
           \<lparr>code = errorCode tc ServerError, message = serverErrorMessage tc\<rparr>))"

section \<open>Notions used to state the properties\<close>

subsection \<open>Shapes of embedded fields\<close>

fun recordName :: "schema \<Rightarrow> string option" where
  "recordName (RecordSchema n _ _) = Some n"
| "recordName _ = None"

text \<open>
  The record type that a field type embeds: the type itself when it is a
  record, the element type of an array, the second branch of a union that has
  at least two branches and \<open>null\<close> as its first one.
\<close>

definition embeddedShape :: "schema \<Rightarrow> string option" where
  "embeddedShape t =
     (case t of
        RecordSchema n _ _ \<Rightarrow> Some n
      | ArraySchema items \<Rightarrow> recordName items
      | UnionSchema schemas \<Rightarrow>
          (case schemas of
             t0 # t1 # _ \<Rightarrow> if t0 = PrimitiveSchema ''null'' then recordName t1 else None
           | _ \<Rightarrow> None)
      | _ \<Rightarrow> None)"

text \<open>
  The same notion as the specification words it, where the union has exactly
  two branches.
\<close>

definition claimedShape :: "schema \<Rightarrow> string option" where
  "claimedShape t =
     (case t of
        RecordSchema n _ _ \<Rightarrow> Some n
      | ArraySchema items \<Rightarrow> recordName items
      | UnionSchema schemas \<Rightarrow>
          (case schemas of
             [t0, t1] \<Rightarrow> if t0 = PrimitiveSchema ''null'' then recordName t1 else None
           | _ \<Rightarrow> None)
      | _ \<Rightarrow> None)"

text \<open>
  The exception a field type raises in getEmbeddedTypes: a union with fewer
  than two branches, or one whose first branch is not \<open>null\<close>.
\<close>

definition unionError :: "schema \<Rightarrow> error option" where
  "unionError t =
     (case t of
        UnionSchema schemas \<Rightarrow>
          (case schemas of
             t0 # t1 # _ \<Rightarrow>
               if t0 = PrimitiveSchema ''null'' then None else Some SchemaUnionAssumptionsViolated
           | _ \<Rightarrow> Some IndexError)
      | _ \<Rightarrow> None)"

definition embeddedPair :: "field \<Rightarrow> (string \<times> string) option" where
  "embeddedPair f = map_option (Pair (field_name f)) (embeddedShape (field_type f))"

subsection \<open>Reading the expression of the required fields\<close>

text \<open>
  formatRequiredFields returns Python source text, an expression of the form
  \<open>set([...])\<close>. \<open>pySetExpression\<close> reads such an expression as Python
  does and gives the elements of its list: after \<open>set([\<close> come string
  literals in double quotes, separated by commas, with spaces and newlines
  between the tokens, a comma being allowed before the closing \<open>])\<close>.
  String literals that follow one another without a comma are one element,
  their concatenation, as in Python. Anything else is a syntax error, None;
  so is a literal with a backslash or a newline, whose reading is not
  modelled. \<open>listItems\<close> is the state where an element or the end is
  expected, \<open>listMore\<close> the state after a literal, \<open>stringLiteral\<close> the
  state inside a literal; \<open>acc\<close> holds the finished elements and \<open>cur\<close>
  the element being read.
\<close>

fun listItems :: "string list \<Rightarrow> string \<Rightarrow> string list option"
  and listMore :: "string list \<Rightarrow> string \<Rightarrow> string \<Rightarrow> string list option"
  and stringLiteral :: "string list \<Rightarrow> string \<Rightarrow> string \<Rightarrow> string list option" where
  "listItems acc [] = None"
| "listItems acc (c # cs) =
     (if c = CHR '' '' \<or> c = CHR 0x0A then listItems acc cs
      else if c = CHR 0x22 then stringLiteral acc [] cs
      else if c = CHR '']'' then (if cs = '')'' then Some acc else None)
      else None)"
| "listMore acc cur [] = None"
| "listMore acc cur (c # cs) =
     (if c = CHR '' '' \<or> c = CHR 0x0A then listMore acc cur cs
      else if c = CHR 0x22 then stringLiteral acc cur cs
      else if c = CHR '','' then listItems (acc @ [cur]) cs
      else if c = CHR '']'' then (if cs = '')'' then Some (acc @ [cur]) else None)
      else None)"
| "stringLiteral acc cur [] = None"
| "stringLiteral acc cur (c # cs) =
     (if c = CHR 0x22 then listMore acc cur cs
      else if c = CHR 0x5C \<or> c = CHR 0x0A then None
      else stringLiteral acc (cur @ [c]) cs)"

definition pySetExpression :: "string \<Rightarrow> string list option" where
  "pySetExpression s = (if take 5 s = ''set(['' then listItems [] (drop 5 s) else None)"

text \<open>A name that a string literal can hold as it is.\<close>

definition plainName :: "string \<Rightarrow> bool" where
  "plainName n = (CHR 0x22 \<notin> set n \<and> CHR 0x5C \<notin> set n \<and> CHR 0x0A \<notin> set n)"

definition requiredFieldsOf :: "field list \<Rightarrow> field list" where
  "requiredFieldsOf fs = filter (\<lambda>field. \<not> has_default field) (sort_key field_name fs)"

text \<open>The two layouts of formatRequiredFields, on the names of the fields it keeps.\<close>

definition requiredText :: "string list \<Rightarrow> string" where
  \<open>requiredText names =
     (if length names < 2
      then ''set(['' @ concat (map (\<lambda>n. ''"'' @ n @ ''"'') names) @ ''])''
      else ''set([\<newline>'' @ concat (map (\<lambda>n. spaces 8 @ ''"'' @ n @ ''",\<newline>'') names)
           @ spaces 4 @ ''])'')\<close>

subsection \<open>The route tuple of a pair of class names\<close>

definition signatureOf :: "string \<times> string \<Rightarrow> string \<times> string \<times> string" where
  "signatureOf p =
     (case re_search ''Search'' ''Request'' (fst p) of
        Some objname \<Rightarrow> (''/'' @ lower objname @ ''/search'', fst p, snd p)
      | None \<Rightarrow> ([], fst p, snd p))"

subsection \<open>Example inputs\<close>

text \<open>A record whose only field is a union of three branches.\<close>

definition threeBranchUnion :: schema where
  "threeBranchUnion =
     UnionSchema [PrimitiveSchema ''null'', RecordSchema ''Position'' None [],
                  PrimitiveSchema ''string'']"

definition threeBranchClass :: SchemaClass where
  "threeBranchClass =
     \<lparr>sourceFile = ''Mate.avsc'', schemaSource = [],
      schema = RecordSchema ''Mate'' None [Field ''nextMate'' threeBranchUnion True ''None''],
      name = ''Mate''\<rparr>"

text \<open>A record with one field of each shape.\<close>

definition alignmentFields :: "field list" where
  "alignmentFields =
     [Field ''nextMatePosition''
        (UnionSchema [PrimitiveSchema ''null'', RecordSchema ''Position'' None []]) True ''None'',
      Field ''id'' (UnionSchema [PrimitiveSchema ''null'', PrimitiveSchema ''string'']) True ''None'',
      Field ''alignment'' (RecordSchema ''LinearAlignment'' None []) False ''None'',
      Field ''cigar'' (ArraySchema (RecordSchema ''CigarUnit'' None [])) True ''[]'',
      Field ''alignedQuality'' (ArraySchema (PrimitiveSchema ''int'')) True ''[]'',
      Field ''readGroupId'' (PrimitiveSchema ''string'') False ''None'']"

definition alignmentClass :: SchemaClass where
  "alignmentClass =
     \<lparr>sourceFile = ''ReadAlignment.avsc'', schemaSource = [],
      schema = RecordSchema ''ReadAlignment'' None alignmentFields,
      name = ''ReadAlignment''\<rparr>"

text \<open>
  A schema directory of three files, in an order in which the request of one
  object meets the response of another, and the library functions on them.
\<close>

definition searchFiles :: "(string \<times> string) list" where
  "searchFiles =
     [(''SearchReadsRequest.avsc'', ''reads request''),
      (''SearchVariantsResponse.avsc'', ''variants response''),
      (''SearchReadsResponse.avsc'', ''reads response'')]"

definition searchExternals :: externals where
  "searchExternals =
     \<lparr>parse = map_of
        [(''reads request'', RecordSchema ''SearchReadsRequest'' None []),
         (''variants response'', RecordSchema ''SearchVariantsResponse'' None []),
         (''reads response'', RecordSchema ''SearchReadsResponse'' None [])],
      dumpsWithoutDocs = (\<lambda>source. source),
      fmt = (\<lambda>text. (0, text, [])),
      fill = (\<lambda>text. text)\<rparr>"

text \<open>
  A record whose field is a union with \<open>null\<close> as its second branch, and
  a schema directory that holds this record only.
\<close>

definition callSchema :: schema where
  "callSchema =
     RecordSchema ''Call'' None
       [Field ''info'' (UnionSchema [PrimitiveSchema ''string'', PrimitiveSchema ''null''])
          True ''None'']"

definition callClass :: SchemaClass where
  "callClass =
     \<lparr>sourceFile = ''Call.avsc'', schemaSource = ''call'', schema = callSchema, name = ''Call''\<rparr>"

definition nullSecondFiles :: "(string \<times> string) list" where
  "nullSecondFiles = [(''Call.avsc'', ''call'')]"

text \<open>
  An enum, and a schema directory that holds the record Call and this enum,
  whose name comes first in the order of the names.
\<close>

definition baseSchema :: schema where
  "baseSchema = EnumSchema ''Base'' None [''A'', ''C'']"

definition baseClass :: SchemaClass where
  "baseClass =
     \<lparr>sourceFile = ''Base.avsc'', schemaSource = ''base'', schema = baseSchema, name = ''Base''\<rparr>"

definition enumAndCallFiles :: "(string \<times> string) list" where
  "enumAndCallFiles = [(''Call.avsc'', ''call''), (''Base.avsc'', ''base'')]"

definition nullSecondExternals :: externals where
  "nullSecondExternals =
     \<lparr>parse = map_of [(''call'', callSchema), (''base'', baseSchema)],
      dumpsWithoutDocs = (\<lambda>source. source),
      fmt = (\<lambda>text. (0, text, [])),
      fill = (\<lambda>text. text)\<rparr>"

section \<open>Properties of the configuration classes\<close>

text \<open>
  C10. In DefaultConfig both validation flags are False and MAX_CONTENT_LENGTH
  is 2 * 1024 * 1024 = 2097152. TestConfig inherits the same limit and sets
  both flags to True. TestWithoutValidationConfig sets both flags back to
  False (and still inherits the limit).
\<close>

theorem config_values:
  "getattr DefaultConfig ''REQUEST_VALIDATION'' = Some (BoolValue False)
   \<and> getattr DefaultConfig ''RESPONSE_VALIDATION'' = Some (BoolValue False)
   \<and> getattr DefaultConfig ''MAX_CONTENT_LENGTH'' = Some (IntValue 2097152)
   \<and> getattr TestConfig ''MAX_CONTENT_LENGTH'' = getattr DefaultConfig ''MAX_CONTENT_LENGTH''
   \<and> getattr TestConfig ''REQUEST_VALIDATION'' = Some (BoolValue True)
   \<and> getattr TestConfig ''RESPONSE_VALIDATION'' = Some (BoolValue True)
   \<and> getattr TestWithoutValidationConfig ''REQUEST_VALIDATION'' = Some (BoolValue False)
   \<and> getattr TestWithoutValidationConfig ''RESPONSE_VALIDATION'' = Some (BoolValue False)
   \<and> getattr TestWithoutValidationConfig ''MAX_CONTENT_LENGTH'' = Some (IntValue 2097152)"
  by (simp add: DefaultConfig_def TestConfig_def TestWithoutValidationConfig_def)

section \<open>Embedded types\<close>

lemma recordName_case:
  "(case t of RecordSchema n x y \<Rightarrow> g n | _ \<Rightarrow> h) = (case recordName t of Some n \<Rightarrow> g n | None \<Rightarrow> h)"
  by (cases t) simp_all

text \<open>One round of the loop: the field raises, or adds its pair, or adds nothing.\<close>

lemma embeddedLoop_step:
  "embeddedLoop (f # fs) ret =
     (case unionError (field_type f) of
        Some e \<Rightarrow> Inl e
      | None \<Rightarrow> embeddedLoop fs (ret @ (case embeddedPair f of Some p \<Rightarrow> [p] | None \<Rightarrow> [])))"
  by (simp add: unionError_def embeddedPair_def embeddedShape_def recordName_case
      split: schema.splits list.splits option.splits)

lemma embeddedLoop_ok:
  "\<forall>f \<in> set fs. unionError (field_type f) = None \<Longrightarrow>
   embeddedLoop fs ret = Inr (ret @ List.map_filter embeddedPair fs)"
proof (induction fs arbitrary: ret)
  case Nil
  show ?case by simp
next
  case (Cons f fs)
  then show ?case
    by (simp only: embeddedLoop_step) (simp split: option.splits)
qed

lemma embeddedLoop_first_error:
  "find (\<lambda>f. unionError (field_type f) \<noteq> None) fs = Some f \<Longrightarrow>
   unionError (field_type f) = Some e \<Longrightarrow> embeddedLoop fs ret = Inl e"
proof (induction fs arbitrary: ret)
  case Nil
  then show ?case by simp
next
  case (Cons g fs)
  then show ?case
    by (simp only: embeddedLoop_step) (auto split: option.splits if_splits)
qed

lemma embeddedLoop_error:
  assumes "f \<in> set fs" and "unionError (field_type f) \<noteq> None"
  shows "\<exists>e. embeddedLoop fs ret = Inl e"
proof -
  from assms obtain g where g: "find (\<lambda>f. unionError (field_type f) \<noteq> None) fs = Some g"
    by (cases "find (\<lambda>f. unionError (field_type f) \<noteq> None) fs") (auto simp: find_None_iff)
  then have "unionError (field_type g) \<noteq> None"
    by (auto simp: find_Some_iff)
  then obtain e where "unionError (field_type g) = Some e" by auto
  with g show ?thesis using embeddedLoop_first_error by blast
qed

lemma getEmbeddedTypes_record:
  "schema self = RecordSchema n d fs \<Longrightarrow>
   getEmbeddedTypes self = embeddedLoop (sort_key field_name fs) []"
  by (simp add: getEmbeddedTypes_def getFields_def)

lemma set_map_filter_embeddedPair:
  "((fn, tn) \<in> set (List.map_filter embeddedPair fs)) =
   (\<exists>f \<in> set fs. field_name f = fn \<and> embeddedShape (field_type f) = Some tn)"
  by (induction fs) (auto simp: embeddedPair_def split: option.splits)

text \<open>
  C1, as the code has it. For a record schema with fields \<open>fs\<close>:
  when no field is a union with fewer than two branches or with a first
  branch other than null, getEmbeddedTypes returns, in the order of the field
  names, exactly the pairs (field name, record name) of the fields that are a
  record, an array of records, or a union of at least two branches whose
  first branch is null and whose second branch is a record (branches after
  the second are not looked at); when some field is a union with fewer than
  two branches or with a first branch other than null, it raises, and the
  exception is that of the first such field in name order; and whenever it
  returns, a pair is in the result if and only if a field of that name has one
  of the three shapes with that record name.
\<close>

theorem getEmbeddedTypes_shapes:
  assumes rec: "schema self = RecordSchema n d fs"
  shows "((\<forall>f \<in> set fs. unionError (field_type f) = None) \<longrightarrow>
            getEmbeddedTypes self = Inr (List.map_filter embeddedPair (sort_key field_name fs)))
       \<and> (\<forall>f \<in> set fs. unionError (field_type f) \<noteq> None \<longrightarrow> (\<exists>e. getEmbeddedTypes self = Inl e))
       \<and> (\<forall>f e. find (\<lambda>f. unionError (field_type f) \<noteq> None) (sort_key field_name fs) = Some f
              \<and> unionError (field_type f) = Some e \<longrightarrow> getEmbeddedTypes self = Inl e)
       \<and> (\<forall>ret fn tn. getEmbeddedTypes self = Inr ret \<longrightarrow>
              ((fn, tn) \<in> set ret) =
              (\<exists>f \<in> set fs. field_name f = fn \<and> embeddedShape (field_type f) = Some tn))"
proof (intro conjI)
  show ok: "(\<forall>f \<in> set fs. unionError (field_type f) = None) \<longrightarrow>
      getEmbeddedTypes self = Inr (List.map_filter embeddedPair (sort_key field_name fs))"
    using embeddedLoop_ok [of "sort_key field_name fs" "[]"]
    by (simp add: getEmbeddedTypes_record [OF rec])
  show err: "\<forall>f \<in> set fs. unionError (field_type f) \<noteq> None \<longrightarrow> (\<exists>e. getEmbeddedTypes self = Inl e)"
  proof (intro ballI impI)
    fix f assume "f \<in> set fs" and "unionError (field_type f) \<noteq> None"
    then show "\<exists>e. getEmbeddedTypes self = Inl e"
      using embeddedLoop_error [of f "sort_key field_name fs" "[]"]
      by (simp add: getEmbeddedTypes_record [OF rec])
  qed
  show "\<forall>f e. find (\<lambda>f. unionError (field_type f) \<noteq> None) (sort_key field_name fs) = Some f
              \<and> unionError (field_type f) = Some e \<longrightarrow> getEmbeddedTypes self = Inl e"
    using embeddedLoop_first_error [of "sort_key field_name fs" _ _ "[]"]
    by (simp add: getEmbeddedTypes_record [OF rec])
  show "\<forall>ret fn tn. getEmbeddedTypes self = Inr ret \<longrightarrow>
              ((fn, tn) \<in> set ret) =
              (\<exists>f \<in> set fs. field_name f = fn \<and> embeddedShape (field_type f) = Some tn)"
  proof (intro allI impI)
    fix ret fn tn assume r: "getEmbeddedTypes self = Inr ret"
    have "\<forall>f \<in> set fs. unionError (field_type f) = None"
    proof (rule ccontr)
      assume "\<not> (\<forall>f \<in> set fs. unionError (field_type f) = None)"
      then obtain f where "f \<in> set fs" "unionError (field_type f) \<noteq> None" by blast
      with err r show False by auto
    qed
    with ok r have "ret = List.map_filter embeddedPair (sort_key field_name fs)" by simp
    then show "((fn, tn) \<in> set ret) =
              (\<exists>f \<in> set fs. field_name f = fn \<and> embeddedShape (field_type f) = Some tn)"
      using set_map_filter_embeddedPair [of fn tn "sort_key field_name fs"] by simp
  qed
qed

text \<open>
  The theorem at two records of the examples. In ReadAlignment no field
  raises, and the three embedded fields come out in name order. In Call the
  field \<open>info\<close> is a union with null as its second branch, and extraction
  raises.
\<close>

theorem getEmbeddedTypes_shapes_witness:
  "schema alignmentClass = RecordSchema ''ReadAlignment'' None alignmentFields
   \<and> list_all (\<lambda>f. unionError (field_type f) = None) alignmentFields
   \<and> getEmbeddedTypes alignmentClass =
       Inr [(''alignment'', ''LinearAlignment''), (''cigar'', ''CigarUnit''),
            (''nextMatePosition'', ''Position'')]
   \<and> getEmbeddedTypes callClass = Inl SchemaUnionAssumptionsViolated"
proof -
  have rec: "schema alignmentClass = RecordSchema ''ReadAlignment'' None alignmentFields"
    by (simp add: alignmentClass_def)
  have ok: "\<forall>f \<in> set alignmentFields. unionError (field_type f) = None"
    by (simp add: alignmentFields_def unionError_def)
  from getEmbeddedTypes_shapes [OF rec] ok
  have "getEmbeddedTypes alignmentClass =
          Inr (List.map_filter embeddedPair (sort_key field_name alignmentFields))"
    by blast
  also have "List.map_filter embeddedPair (sort_key field_name alignmentFields) =
       [(''alignment'', ''LinearAlignment''), (''cigar'', ''CigarUnit''),
        (''nextMatePosition'', ''Position'')]"
    by (simp add: alignmentFields_def embeddedPair_def embeddedShape_def)
  finally have first: "getEmbeddedTypes alignmentClass =
       Inr [(''alignment'', ''LinearAlignment''), (''cigar'', ''CigarUnit''),
            (''nextMatePosition'', ''Position'')]" .
  define info where
    "info = Field ''info'' (UnionSchema [PrimitiveSchema ''string'', PrimitiveSchema ''null''])
              True ''None''"
  have call: "schema callClass = RecordSchema ''Call'' None [info]"
    by (simp add: callClass_def callSchema_def info_def)
  have found: "find (\<lambda>f. unionError (field_type f) \<noteq> None) (sort_key field_name [info]) = Some info"
    and raised: "unionError (field_type info) = Some SchemaUnionAssumptionsViolated"
    by (simp_all add: info_def unionError_def)
  from getEmbeddedTypes_shapes [OF call] found raised
  have second: "getEmbeddedTypes callClass = Inl SchemaUnionAssumptionsViolated"
    by blast
  from rec ok first second show ?thesis
    by (simp add: list_all_iff)
qed

text \<open>
  The claim as stated fails on a union of three branches: the field
  \<open>nextMate\<close> of the record Mate has the type
  \<open>[null, Position, string]\<close>, which is not a two-branch union, and
  getEmbeddedTypes flags it all the same.
\<close>

theorem getEmbeddedTypes_three_branch_union:
  "getEmbeddedTypes threeBranchClass = Inr [(''nextMate'', ''Position'')]
   \<and> claimedShape threeBranchUnion = None"
  by (simp add: threeBranchClass_def threeBranchUnion_def getEmbeddedTypes_def getFields_def
      claimedShape_def)

section \<open>Route pairs\<close>

lemma startswith_iff: "startswith s p = (\<exists>after. s = p @ after)"
proof
  assume "startswith s p"
  then have "s = p @ drop (length p) s"
    by (metis append_take_drop_id startswith_def)
  then show "\<exists>after. s = p @ after" ..
next
  assume "\<exists>after. s = p @ after"
  then show "startswith s p" by (auto simp: startswith_def)
qed

lemma backtrack_Some:
  "backtrack suffix s k = Some g \<Longrightarrow>
   \<exists>j. 0 < j \<and> j \<le> k \<and> g = take j s \<and> startswith (drop j s) suffix"
proof (induction k)
  case 0
  then show ?case by simp
next
  case (Suc k)
  show ?case
  proof (cases "startswith (drop (Suc k) s) suffix")
    case True
    with Suc.prems have "g = take (Suc k) s" by simp
    with True show ?thesis by blast
  next
    case False
    with Suc.prems have "backtrack suffix s k = Some g" by simp
    from Suc.IH [OF this] show ?thesis by (auto intro: le_SucI)
  qed
qed

lemma backtrack_None:
  "backtrack suffix s k = None \<Longrightarrow> 0 < j \<Longrightarrow> j \<le> k \<Longrightarrow> \<not> startswith (drop j s) suffix"
proof (induction k)
  case 0
  then show ?case by simp
next
  case (Suc k)
  then show ?case by (cases "j = Suc k") (auto split: if_splits)
qed

text \<open>
  A match at a position splits the text there into the first literal, a
  non-empty group without newline, the second literal, and a remainder.
\<close>

lemma matchAt_Some:
  assumes "matchAt pre suffix s = Some g"
  shows "\<exists>after. s = pre @ g @ suffix @ after \<and> g \<noteq> [] \<and> CHR 0x0A \<notin> set g"
proof -
  define rest where "rest = drop (length pre) s"
  define run where "run = takeWhile (\<lambda>c. c \<noteq> CHR 0x0A) rest"
  from assms have pre: "startswith s pre"
    and bt: "backtrack suffix rest (length run) = Some g"
    by (auto simp: matchAt_def rest_def run_def Let_def split: if_splits)
  from pre have s: "s = pre @ rest"
    by (auto simp: startswith_iff rest_def)
  from backtrack_Some [OF bt] obtain j where j: "0 < j" "j \<le> length run"
    and g: "g = take j rest" and suf: "startswith (drop j rest) suffix"
    by blast
  from suf obtain after where after: "drop j rest = suffix @ after"
    by (auto simp: startswith_iff)
  have "rest = take j rest @ drop j rest" by simp
  with g after have rest: "rest = g @ suffix @ after" by simp
  have "length run \<le> length rest"
    by (simp add: run_def length_takeWhile_le)
  with j g have "g \<noteq> []" by auto
  have "run = take (length run) rest"
    unfolding run_def by (metis takeWhile_eq_take)
  then have "g = take j run"
    using j g by (metis min.absorb1 take_take)
  then have "set g \<subseteq> set run" by (metis set_take_subset)
  moreover have "CHR 0x0A \<notin> set run"
    unfolding run_def by (auto dest: set_takeWhileD)
  ultimately have "CHR 0x0A \<notin> set g" by blast
  with s rest \<open>g \<noteq> []\<close> show ?thesis by auto
qed

lemma matchAt_complete:
  assumes "g \<noteq> []" and "CHR 0x0A \<notin> set g"
  shows "matchAt pre suffix (pre @ g @ suffix @ after) \<noteq> None"
proof
  assume none: "matchAt pre suffix (pre @ g @ suffix @ after) = None"
  define rest where "rest = g @ suffix @ after"
  have sw: "startswith (pre @ g @ suffix @ after) pre"
    by (simp add: startswith_iff)
  have rest: "drop (length pre) (pre @ g @ suffix @ after) = rest"
    by (simp add: rest_def)
  from none sw rest
  have bt: "backtrack suffix rest (length (takeWhile (\<lambda>c. c \<noteq> CHR 0x0A) rest)) = None"
    by (simp add: matchAt_def Let_def)
  have "takeWhile (\<lambda>c. c \<noteq> CHR 0x0A) rest = g @ takeWhile (\<lambda>c. c \<noteq> CHR 0x0A) (suffix @ after)"
    unfolding rest_def using assms(2) by (intro takeWhile_append2) auto
  then have le: "length g \<le> length (takeWhile (\<lambda>c. c \<noteq> CHR 0x0A) rest)" by simp
  have "0 < length g" using assms(1) by simp
  from backtrack_None [OF bt this le]
  show False by (simp add: rest_def startswith_iff)
qed

lemma re_search_Some:
  "re_search pre suffix s = Some g \<Longrightarrow>
   \<exists>before after. s = before @ pre @ g @ suffix @ after \<and> g \<noteq> [] \<and> CHR 0x0A \<notin> set g"
proof (induction s)
  case Nil
  then have "matchAt pre suffix [] = Some g" by simp
  from matchAt_Some [OF this] show ?case by (metis append_Nil)
next
  case (Cons c cs)
  show ?case
  proof (cases "matchAt pre suffix (c # cs)")
    case (Some g')
    with Cons.prems have "matchAt pre suffix (c # cs) = Some g" by simp
    from matchAt_Some [OF this] show ?thesis by (metis append_Nil)
  next
    case None
    with Cons.prems have "re_search pre suffix cs = Some g" by simp
    from Cons.IH [OF this] obtain before after
      where "cs = before @ pre @ g @ suffix @ after" "g \<noteq> []" "CHR 0x0A \<notin> set g"
      by blast
    then have "c # cs = (c # before) @ pre @ g @ suffix @ after" by simp
    with \<open>g \<noteq> []\<close> \<open>CHR 0x0A \<notin> set g\<close> show ?thesis by blast
  qed
qed

lemma re_search_complete:
  assumes "g \<noteq> []" and "CHR 0x0A \<notin> set g"
  shows "re_search pre suffix (before @ pre @ g @ suffix @ after) \<noteq> None"
proof (induction before)
  case Nil
  have m: "matchAt pre suffix (pre @ g @ suffix @ after) \<noteq> None"
    using assms by (rule matchAt_complete)
  show ?case
  proof (cases "pre @ g @ suffix @ after")
    case Nil
    with m show ?thesis by simp
  next
    case (Cons c cs)
    with m show ?thesis by (auto split: option.splits)
  qed
next
  case (Cons c before)
  then show ?case by (auto split: option.splits)
qed

text \<open>
  The search finds a match exactly in the names that contain the first
  literal, then at least one character and no newline, then the second literal.
\<close>

lemma re_search_matches_iff:
  "(re_search pre suffix s \<noteq> None) =
   (\<exists>before g after. s = before @ pre @ g @ suffix @ after \<and> g \<noteq> [] \<and> CHR 0x0A \<notin> set g)"
proof
  assume "re_search pre suffix s \<noteq> None"
  then obtain g where "re_search pre suffix s = Some g" by auto
  from re_search_Some [OF this] show
    "\<exists>before g after. s = before @ pre @ g @ suffix @ after \<and> g \<noteq> [] \<and> CHR 0x0A \<notin> set g"
    by blast
next
  assume "\<exists>before g after. s = before @ pre @ g @ suffix @ after \<and> g \<noteq> [] \<and> CHR 0x0A \<notin> set g"
  then show "re_search pre suffix s \<noteq> None"
    using re_search_complete by blast
qed

lemma signaturesLoop_ok:
  "\<forall>p \<in> set pairs. re_search ''Search'' ''Request'' (fst p) \<noteq> None \<Longrightarrow>
   signaturesLoop pairs sigs = Inr (sigs @ map signatureOf pairs)"
proof (induction pairs arbitrary: sigs)
  case Nil
  show ?case by simp
next
  case (Cons p pairs)
  obtain request response where p: "p = (request, response)" by (cases p)
  from Cons.prems p obtain x where x: "re_search ''Search'' ''Request'' request = Some x"
    by auto
  from Cons.prems have "\<forall>p \<in> set pairs. re_search ''Search'' ''Request'' (fst p) \<noteq> None"
    by simp
  from Cons.IH [OF this] show ?case
    by (simp add: p x signatureOf_def)
qed

text \<open>
  C2. When the schema files load, the generator is built, and: its request
  names are the class names, in the order of the files, that contain
  \<open>Search\<close>, a non-empty text \<open>x\<close> and \<open>Request\<close>; its response names
  likewise with \<open>Response\<close>; there are as many route tuples as the shorter
  of the two lists has names; and the tuple at position \<open>i\<close> consists of the
  path \<open>/\<close>, the lower-cased text \<open>x\<close> that the search finds in the
  request name at position \<open>i\<close>, \<open>/search\<close>, of that request name, and of
  the response name at position \<open>i\<close>, whatever object that response is
  about.
\<close>

theorem postSignatures_positional:
  assumes load: "loadClasses ext files = Inr cs"
  shows "\<exists>sg. SchemaGenerator_init ext v dir outFile files = Inr sg
     \<and> classes sg = cs
     \<and> requestClassNames sg =
         filter (\<lambda>n. \<exists>before x after. n = before @ ''Search'' @ x @ ''Request'' @ after
                       \<and> x \<noteq> [] \<and> CHR 0x0A \<notin> set x) (map name cs)
     \<and> responseClassNames sg =
         filter (\<lambda>n. \<exists>before x after. n = before @ ''Search'' @ x @ ''Response'' @ after
                       \<and> x \<noteq> [] \<and> CHR 0x0A \<notin> set x) (map name cs)
     \<and> length (postSignatures sg) = min (length (requestClassNames sg)) (length (responseClassNames sg))
     \<and> (\<forall>i < length (postSignatures sg). \<exists>x before after.
           re_search ''Search'' ''Request'' (requestClassNames sg ! i) = Some x
           \<and> requestClassNames sg ! i = before @ ''Search'' @ x @ ''Request'' @ after
           \<and> postSignatures sg ! i =
               (''/'' @ lower x @ ''/search'', requestClassNames sg ! i, responseClassNames sg ! i))"
proof -
  define requests where
    "requests = filter (\<lambda>n. re_search ''Search'' ''Request'' n \<noteq> None) (map name cs)"
  define responses where
    "responses = filter (\<lambda>n. re_search ''Search'' ''Response'' n \<noteq> None) (map name cs)"
  define sg where
    "sg = \<lparr>version = v, schemaDir = dir, outputFile = outFile, classes = cs,
           requestClassNames = requests, responseClassNames = responses,
           postSignatures = map signatureOf (zip requests responses)\<rparr>"
  have "\<forall>p \<in> set (zip requests responses). re_search ''Search'' ''Request'' (fst p) \<noteq> None"
  proof
    fix p assume "p \<in> set (zip requests responses)"
    then have "fst p \<in> set requests"
      by (metis prod.collapse set_zip_leftD)
    then show "re_search ''Search'' ''Request'' (fst p) \<noteq> None"
      by (simp add: requests_def)
  qed
  then have loop: "signaturesLoop (zip requests responses) [] = Inr (map signatureOf (zip requests responses))"
    using signaturesLoop_ok [of "zip requests responses" "[]"] by simp
  have init: "SchemaGenerator_init ext v dir outFile files = Inr sg"
    using load loop
    by (simp add: SchemaGenerator_init_def sg_def requests_def responses_def Let_def)
  have sel: "requestClassNames sg = requests" "responseClassNames sg = responses"
    "postSignatures sg = map signatureOf (zip requests responses)"
    by (simp_all add: sg_def)
  have req: "requestClassNames sg =
         filter (\<lambda>n. \<exists>before x after. n = before @ ''Search'' @ x @ ''Request'' @ after
                       \<and> x \<noteq> [] \<and> CHR 0x0A \<notin> set x) (map name cs)"
    using sel(1) unfolding requests_def re_search_matches_iff .
  have resp: "responseClassNames sg =
         filter (\<lambda>n. \<exists>before x after. n = before @ ''Search'' @ x @ ''Response'' @ after
                       \<and> x \<noteq> [] \<and> CHR 0x0A \<notin> set x) (map name cs)"
    using sel(2) unfolding responses_def re_search_matches_iff .
  have len: "length (postSignatures sg) = min (length (requestClassNames sg)) (length (responseClassNames sg))"
    by (simp add: sg_def)
  have nth: "\<forall>i < length (postSignatures sg). \<exists>x before after.
           re_search ''Search'' ''Request'' (requestClassNames sg ! i) = Some x
           \<and> requestClassNames sg ! i = before @ ''Search'' @ x @ ''Request'' @ after
           \<and> postSignatures sg ! i =
               (''/'' @ lower x @ ''/search'', requestClassNames sg ! i, responseClassNames sg ! i)"
    unfolding sel
  proof (intro allI impI)
    fix i assume "i < length (map signatureOf (zip requests responses))"
    then have i: "i < length requests" "i < length responses"
      by simp_all
    then have "requests ! i \<in> set requests" by simp
    then obtain x where x: "re_search ''Search'' ''Request'' (requests ! i) = Some x"
      by (auto simp: requests_def)
    from re_search_Some [OF this] obtain before after
      where dec: "requests ! i = before @ ''Search'' @ x @ ''Request'' @ after"
      by blast
    have "map signatureOf (zip requests responses) ! i = signatureOf (requests ! i, responses ! i)"
      using i by simp
    also have "\<dots> = (''/'' @ lower x @ ''/search'', requests ! i, responses ! i)"
      by (simp only: signatureOf_def fst_conv snd_conv x option.case)
    finally have ps: "map signatureOf (zip requests responses) ! i =
        (''/'' @ lower x @ ''/search'', requests ! i, responses ! i)" .
    show "\<exists>x before after.
           re_search ''Search'' ''Request'' (requests ! i) = Some x
           \<and> requests ! i = before @ ''Search'' @ x @ ''Request'' @ after
           \<and> map signatureOf (zip requests responses) ! i =
               (''/'' @ lower x @ ''/search'', requests ! i, responses ! i)"
      by (intro exI [of _ x] exI [of _ before] exI [of _ after] conjI x dec ps)
  qed
  have "classes sg = cs" by (simp add: sg_def)
  with init req resp len nth show ?thesis by blast
qed

text \<open>
  The theorem at the three files of the examples: the only request,
  SearchReadsRequest, is paired with the first response of the directory,
  SearchVariantsResponse, under the path of the request.
\<close>

theorem postSignatures_positional_witness:
  "(\<exists>cs. loadClasses searchExternals searchFiles = Inr cs)
   \<and> (\<exists>sg. SchemaGenerator_init searchExternals ''v0.5.1'' ''schemas'' ''out.py'' searchFiles = Inr sg
         \<and> requestClassNames sg = [''SearchReadsRequest'']
         \<and> responseClassNames sg = [''SearchVariantsResponse'', ''SearchReadsResponse'']
         \<and> postSignatures sg =
             [(''/reads/search'', ''SearchReadsRequest'', ''SearchVariantsResponse'')])"
proof -
  have load: "loadClasses searchExternals searchFiles =
      Inr [\<lparr>sourceFile = ''SearchReadsRequest.avsc'', schemaSource = ''reads request'',
             schema = RecordSchema ''SearchReadsRequest'' None [], name = ''SearchReadsRequest''\<rparr>,
           \<lparr>sourceFile = ''SearchVariantsResponse.avsc'', schemaSource = ''variants response'',
             schema = RecordSchema ''SearchVariantsResponse'' None [],
             name = ''SearchVariantsResponse''\<rparr>,
           \<lparr>sourceFile = ''SearchReadsResponse.avsc'', schemaSource = ''reads response'',
             schema = RecordSchema ''SearchReadsResponse'' None [],
             name = ''SearchReadsResponse''\<rparr>]"
    by (simp add: searchFiles_def searchExternals_def SchemaClass_init_def)
  from postSignatures_positional [OF load, of "''v0.5.1''" "''schemas''" "''out.py''"]
  obtain sg where sg:
    "SchemaGenerator_init searchExternals ''v0.5.1'' ''schemas'' ''out.py'' searchFiles = Inr sg"
    by blast
  have low: "lower ''Reads'' = ''reads''"
    by code_simp
  have "SchemaGenerator_init searchExternals ''v0.5.1'' ''schemas'' ''out.py'' searchFiles =
      Inr \<lparr>version = ''v0.5.1'', schemaDir = ''schemas'', outputFile = ''out.py'',
            classes = [\<lparr>sourceFile = ''SearchReadsRequest.avsc'', schemaSource = ''reads request'',
             schema = RecordSchema ''SearchReadsRequest'' None [], name = ''SearchReadsRequest''\<rparr>,
           \<lparr>sourceFile = ''SearchVariantsResponse.avsc'', schemaSource = ''variants response'',
             schema = RecordSchema ''SearchVariantsResponse'' None [],
             name = ''SearchVariantsResponse''\<rparr>,
           \<lparr>sourceFile = ''SearchReadsResponse.avsc'', schemaSource = ''reads response'',
             schema = RecordSchema ''SearchReadsResponse'' None [],
             name = ''SearchReadsResponse''\<rparr>],
            requestClassNames = [''SearchReadsRequest''],
            responseClassNames = [''SearchVariantsResponse'', ''SearchReadsResponse''],
            postSignatures = [(''/reads/search'', ''SearchReadsRequest'', ''SearchVariantsResponse'')]\<rparr>"
    unfolding SchemaGenerator_init_def load
    by (simp add: matchAt_def startswith_def low Let_def)
  with sg load show ?thesis by auto
qed

section \<open>Required fields\<close>

lemma stringLiteral_name:
  "plainName n \<Longrightarrow> stringLiteral acc cur (n @ CHR 0x22 # rest) = listMore acc (cur @ n) rest"
  by (induction n arbitrary: cur) (auto simp: plainName_def)

lemma listItems_spaces:
  "listItems acc (spaces k @ rest) = listItems acc rest"
  by (induction k) (simp_all add: spaces_def)

text \<open>One line of the long layout adds its name to the elements.\<close>

lemma listItems_line:
  assumes "plainName n"
  shows "listItems acc (spaces k @ CHR 0x22 # n @ CHR 0x22 # '',\<newline>'' @ rest)
         = listItems (acc @ [n]) rest"
proof -
  have "listItems acc (spaces k @ CHR 0x22 # n @ CHR 0x22 # '',\<newline>'' @ rest)
        = listItems acc (CHR 0x22 # n @ CHR 0x22 # '',\<newline>'' @ rest)"
    by (rule listItems_spaces)
  also have "\<dots> = stringLiteral acc [] (n @ CHR 0x22 # '',\<newline>'' @ rest)" by simp
  also have "\<dots> = listMore acc n ('',\<newline>'' @ rest)"
    using stringLiteral_name [OF assms, of acc "[]"] by simp
  also have "\<dots> = listItems (acc @ [n]) rest" by simp
  finally show ?thesis .
qed

lemma listItems_lines:
  "\<forall>n \<in> set names. plainName n \<Longrightarrow>
   listItems acc (concat (map (\<lambda>n. spaces 8 @ CHR 0x22 # n @ CHR 0x22 # '',\<newline>'') names)
                    @ spaces 4 @ ''])'')
   = Some (acc @ names)"
proof (induction names arbitrary: acc)
  case Nil
  have "listItems acc (spaces 4 @ ''])'') = listItems acc ''])''" by (rule listItems_spaces)
  then show ?case by simp
next
  case (Cons n names)
  then have n: "plainName n" and rest: "\<forall>n \<in> set names. plainName n" by simp_all
  have "listItems acc (concat (map (\<lambda>n. spaces 8 @ CHR 0x22 # n @ CHR 0x22 # '',\<newline>'') (n # names))
                    @ spaces 4 @ ''])'')
      = listItems acc (spaces 8 @ CHR 0x22 # n @ CHR 0x22 # '',\<newline>'' @
          (concat (map (\<lambda>n. spaces 8 @ CHR 0x22 # n @ CHR 0x22 # '',\<newline>'') names)
                    @ spaces 4 @ ''])''))"
    by simp
  also have "\<dots> = listItems (acc @ [n])
          (concat (map (\<lambda>n. spaces 8 @ CHR 0x22 # n @ CHR 0x22 # '',\<newline>'') names)
                    @ spaces 4 @ ''])'')"
    using n by (rule listItems_line)
  also have "\<dots> = Some ((acc @ [n]) @ names)"
    using rest by (rule Cons.IH)
  finally show ?case by simp
qed

text \<open>
  Both layouts read back as the list of the names: the short one because it
  is used for no name or one name only, where no comma is needed, the long
  one because every name is followed by a comma.
\<close>

lemma pySetExpression_requiredText:
  assumes "\<forall>n \<in> set names. plainName n"
  shows "pySetExpression (requiredText names) = Some names"
proof (cases "length names < 2")
  case True
  then consider "names = []" | n where "names = [n]"
    by (cases names) (auto simp: length_Suc_conv)
  then show ?thesis
  proof cases
    case 1
    then show ?thesis by (simp add: pySetExpression_def requiredText_def)
  next
    case 2
    with assms have "plainName n" by simp
    from stringLiteral_name [OF this, of "[]" "[]" "''])''"] 2
    show ?thesis by (simp add: pySetExpression_def requiredText_def)
  qed
next
  case False
  have "pySetExpression (requiredText names)
        = listItems [] (concat (map (\<lambda>n. spaces 8 @ CHR 0x22 # n @ CHR 0x22 # '',\<newline>'') names)
                    @ spaces 4 @ ''])'')"
    using False by (simp add: pySetExpression_def requiredText_def)
  also have "\<dots> = Some ([] @ names)"
    using assms by (rule listItems_lines)
  finally show ?thesis by simp
qed

lemma formatRequiredFields_requiredText:
  "schema self = RecordSchema n d fs \<Longrightarrow>
   formatRequiredFields self = Inr (requiredText (map field_name (requiredFieldsOf fs)))"
  by (simp add: formatRequiredFields_def getFields_def requiredFieldsOf_def requiredText_def
      Let_def comp_def)

text \<open>
  C3. For a record schema whose field names are plain, formatRequiredFields
  emits a well-formed Python expression \<open>set([...])\<close> whose elements are,
  one by one and in name order, the names of the fields without a default
  value, whatever their types (a nullable field without a default is among
  them). So the set it denotes is exactly the set of these names; it is a
  subset of the field names; and, field names being distinct as Avro
  requires, every field either has a default or is required, never both.
\<close>

theorem formatRequiredFields_required:
  assumes rec: "schema self = RecordSchema n d fs"
    and plain: "\<forall>f \<in> set fs. plainName (field_name f)"
  shows "\<exists>expr names. formatRequiredFields self = Inr expr
           \<and> pySetExpression expr = Some names
           \<and> names = map field_name (filter (\<lambda>f. \<not> has_default f) (sort_key field_name fs))
           \<and> set names = {field_name f |f. f \<in> set fs \<and> \<not> has_default f}
           \<and> set names \<subseteq> field_name ` set fs
           \<and> (distinct (map field_name fs) \<longrightarrow>
                (\<forall>f \<in> set fs. (field_name f \<in> set names) = (\<not> has_default f)))"
proof -
  define names where "names = map field_name (requiredFieldsOf fs)"
  define expr where "expr = requiredText names"
  have emitted: "formatRequiredFields self = Inr expr"
    unfolding expr_def names_def using rec by (rule formatRequiredFields_requiredText)
  have "\<forall>n \<in> set names. plainName n"
    using plain by (auto simp: names_def requiredFieldsOf_def)
  then have parsed: "pySetExpression expr = Some names"
    unfolding expr_def by (rule pySetExpression_requiredText)
  have list: "names = map field_name (filter (\<lambda>f. \<not> has_default f) (sort_key field_name fs))"
    by (simp add: names_def requiredFieldsOf_def)
  have s: "set names = {field_name f |f. f \<in> set fs \<and> \<not> has_default f}"
    unfolding list by auto
  then have sub: "set names \<subseteq> field_name ` set fs" by auto
  have part: "distinct (map field_name fs) \<longrightarrow>
                (\<forall>f \<in> set fs. (field_name f \<in> set names) = (\<not> has_default f))"
  proof (intro impI ballI)
    fix f assume d: "distinct (map field_name fs)" and f: "f \<in> set fs"
    have inj: "inj_on field_name (set fs)"
      using d by (simp add: distinct_map)
    show "(field_name f \<in> set names) = (\<not> has_default f)"
    proof
      assume "field_name f \<in> set names"
      with s obtain g where g: "g \<in> set fs" "\<not> has_default g" "field_name g = field_name f"
        by auto
      with inj f have "g = f" by (auto dest: inj_onD)
      with g show "\<not> has_default f" by simp
    next
      assume "\<not> has_default f"
      with f s show "field_name f \<in> set names" by auto
    qed
  qed
  from emitted parsed list s sub part show ?thesis by blast
qed

text \<open>
  The theorem at the record ReadAlignment of the examples: the expression
  reads as the list of its two fields without a default.
\<close>

theorem formatRequiredFields_required_witness:
  "schema alignmentClass = RecordSchema ''ReadAlignment'' None alignmentFields
   \<and> list_all (\<lambda>f. plainName (field_name f)) alignmentFields
   \<and> distinct (map field_name alignmentFields)
   \<and> (\<exists>expr. formatRequiredFields alignmentClass = Inr expr
         \<and> pySetExpression expr = Some [''alignment'', ''readGroupId''])"
proof -
  have rec: "schema alignmentClass = RecordSchema ''ReadAlignment'' None alignmentFields"
    by (simp add: alignmentClass_def)
  have plain: "\<forall>f \<in> set alignmentFields. plainName (field_name f)"
    by (simp add: alignmentFields_def plainName_def)
  have dist: "distinct (map field_name alignmentFields)"
    by (simp add: alignmentFields_def)
  have req: "map field_name (filter (\<lambda>f. \<not> has_default f) (sort_key field_name alignmentFields))
             = [''alignment'', ''readGroupId'']"
    by (simp add: alignmentFields_def)
  from formatRequiredFields_required [OF rec plain] obtain expr names
    where "formatRequiredFields alignmentClass = Inr expr"
      and "pySetExpression expr = Some names"
      and "names = map field_name (filter (\<lambda>f. \<not> has_default f) (sort_key field_name alignmentFields))"
    by blast
  with req have "\<exists>expr. formatRequiredFields alignmentClass = Inr expr
         \<and> pySetExpression expr = Some [''alignment'', ''readGroupId'']"
    by auto
  with rec plain dist show ?thesis
    by (simp add: list_all_iff)
qed

section \<open>Errors during a generation run\<close>

text \<open>Every writing function appends to the content it is given.\<close>

lemma foldl_print:
  "foldl (\<lambda>acc x. print (g x) acc) out xs = out @ concat (map (\<lambda>x. g x @ ''\<newline>'') xs)"
  by (induction xs arbitrary: out) (simp_all add: print_def)

lemma writeConstructor_extends:
  "\<exists>rest. snd (writeConstructor ext self out) = out @ rest"
  by (simp add: writeConstructor_def Let_def foldl_print split: sum.splits)
     (simp add: print_def)

lemma writeEmbeddedTypesClassMethods_extends:
  "\<exists>rest. snd (writeEmbeddedTypesClassMethods self out) = out @ rest"
  by (simp add: writeEmbeddedTypesClassMethods_def Let_def print_def split: sum.splits)

text \<open>An exception of getEmbeddedTypes goes through every caller up to \<open>write\<close>.\<close>

lemma writeEmbeddedTypesClassMethods_error:
  "getEmbeddedTypes self = Inl e \<Longrightarrow> fst (writeEmbeddedTypesClassMethods self out) = Some e"
  by (simp add: writeEmbeddedTypesClassMethods_def Let_def)

lemma writeRecord_extends:
  "\<exists>rest. snd (writeRecord ext self out) = out @ rest"
  by (simp add: writeRecord_def writeEmbeddedTypesClassMethods_def writeConstructor_def
        Let_def foldl_print split: sum.splits)
     (simp add: print_def)

lemma writeRecord_error:
  assumes "getEmbeddedTypes self = Inl e"
  shows "fst (writeRecord ext self out) \<noteq> None"
proof (cases "formatSchema ext self")
  case (Inl e)
  then show ?thesis by (simp add: writeRecord_def)
next
  case fs: (Inr formatted)
  show ?thesis
  proof (cases "formatRequiredFields self")
    case (Inl e)
    with fs show ?thesis by (simp add: writeRecord_def Let_def)
  next
    case rq: (Inr required)
    show ?thesis
      using fs rq writeEmbeddedTypesClassMethods_error [OF assms]
      by (simp add: writeRecord_def Let_def split: prod.splits option.splits) (metis fst_conv option.distinct(1))
  qed
qed

lemma getEmbeddedTypes_error_record:
  "getEmbeddedTypes self = Inl e \<Longrightarrow> \<exists>n d fs. schema self = RecordSchema n d fs"
  by (cases "schema self") (simp_all add: getEmbeddedTypes_def)

lemma SchemaClass_write_extends:
  "\<exists>rest. snd (SchemaClass_write ext self out) = out @ rest"
proof (cases "schema self")
  case (RecordSchema n d fs)
  obtain rest where "snd (writeRecord ext self
      (print (''    '' @ [CHR 0x22, CHR 0x22, CHR 0x22] @ ''\<newline>''
                @ (case d of None \<Rightarrow> ''No documentation'' | Some text \<Rightarrow> text)
                @ ''\<newline>    '' @ [CHR 0x22, CHR 0x22, CHR 0x22])
         (print (''\<newline>\<newline>class '' @ n @ ''(ProtocolElement):'') out)))
     = print (''    '' @ [CHR 0x22, CHR 0x22, CHR 0x22] @ ''\<newline>''
                @ (case d of None \<Rightarrow> ''No documentation'' | Some text \<Rightarrow> text)
                @ ''\<newline>    '' @ [CHR 0x22, CHR 0x22, CHR 0x22])
         (print (''\<newline>\<newline>class '' @ n @ ''(ProtocolElement):'') out) @ rest"
    using writeRecord_extends by blast
  with RecordSchema show ?thesis
    by (simp add: SchemaClass_write_def Let_def print_def)
qed (simp_all add: SchemaClass_write_def Let_def foldl_print, simp_all add: print_def)

lemma SchemaClass_write_error:
  assumes "getEmbeddedTypes self = Inl e"
  shows "fst (SchemaClass_write ext self out) \<noteq> None"
proof -
  from getEmbeddedTypes_error_record [OF assms]
  obtain n d fs where rec: "schema self = RecordSchema n d fs" by blast
  show ?thesis
    using writeRecord_error [OF assms]
    by (simp add: SchemaClass_write_def Let_def rec)
qed

lemma writeClasses_extends:
  "\<exists>rest. snd (writeClasses ext dict names out) = out @ rest"
proof (induction names arbitrary: out)
  case Nil
  show ?case by simp
next
  case (Cons n names)
  show ?case
  proof (cases "dict n")
    case None
    then show ?thesis by simp
  next
    case (Some cls)
    obtain e1 out1 where w: "SchemaClass_write ext cls out = (e1, out1)"
      by (cases "SchemaClass_write ext cls out")
    obtain r1 where r1: "out1 = out @ r1"
      using SchemaClass_write_extends [of ext cls out] w by auto
    obtain r2 where r2: "snd (writeClasses ext dict names out1) = out1 @ r2"
      using Cons by blast
    show ?thesis
      using Some w r1 r2 by (cases e1) simp_all
  qed
qed

lemma writeClasses_error:
  assumes "n \<in> set names" and "dict n = Some c" and "getEmbeddedTypes c = Inl e"
  shows "fst (writeClasses ext dict names out) \<noteq> None"
  using assms(1)
proof (induction names arbitrary: out)
  case Nil
  then show ?case by simp
next
  case (Cons m names)
  show ?case
  proof (cases "dict m")
    case None
    then show ?thesis by simp
  next
    case (Some cls)
    obtain e1 out1 where w: "SchemaClass_write ext cls out = (e1, out1)"
      by (cases "SchemaClass_write ext cls out")
    show ?thesis
    proof (cases e1)
      case None
      have "m \<noteq> n"
      proof
        assume "m = n"
        with Some assms(2) have "cls = c" by simp
        with SchemaClass_write_error [OF assms(3), of ext out] w None show False by simp
      qed
      with Cons.prems have "n \<in> set names" by simp
      from Cons.IH [OF this] show ?thesis
        using Some w None by simp
    next
      case (Some e')
      with \<open>dict m = Some cls\<close> w show ?thesis by simp
    qed
  qed
qed

text \<open>With distinct names the dictionary of \<open>write\<close> holds every class under its name.\<close>

lemma dict_other:
  "n \<notin> name ` set cs \<Longrightarrow> foldl (\<lambda>d cls. d(name cls \<mapsto> cls)) m cs n = m n"
  by (induction cs arbitrary: m) auto

lemma dict_distinct:
  "distinct (map name cs) \<Longrightarrow> c \<in> set cs \<Longrightarrow>
   foldl (\<lambda>d cls. d(name cls \<mapsto> cls)) m cs (name c) = Some c"
proof (induction cs arbitrary: m)
  case Nil
  then show ?case by simp
next
  case (Cons x cs)
  show ?case
  proof (cases "c = x")
    case True
    with Cons.prems have "name c \<notin> name ` set cs" by auto
    then have "foldl (\<lambda>d cls. d(name cls \<mapsto> cls)) (m(name x \<mapsto> x)) cs (name c)
               = (m(name x \<mapsto> x)) (name c)"
      by (rule dict_other)
    also have "\<dots> = Some c" using True by simp
    finally show ?thesis by (simp only: foldl_Cons)
  next
    case False
    with Cons.prems have "distinct (map name cs)" "c \<in> set cs" by simp_all
    then have "foldl (\<lambda>d cls. d(name cls \<mapsto> cls)) (m(name x \<mapsto> x)) cs (name c) = Some c"
      by (rule Cons.IH)
    then show ?thesis by (simp only: foldl_Cons)
  qed
qed

lemma SchemaGenerator_write_error:
  assumes "distinct (map name (classes sg))" and "c \<in> set (classes sg)"
    and "getEmbeddedTypes c = Inl e"
  shows "\<exists>err rest. SchemaGenerator_write ext sg = (Some err, writeHeader sg [] @ rest)"
proof -
  define dict where "dict = foldl (\<lambda>d cls. d(name cls \<mapsto> cls)) Map.empty (classes sg)"
  define names where "names = sort (map name (classes sg))"
  have "dict (name c) = Some c"
    unfolding dict_def using assms(1,2) by (rule dict_distinct)
  moreover have "name c \<in> set names"
    using assms(2) by (simp add: names_def)
  ultimately have err: "fst (writeClasses ext dict names (writeHeader sg [])) \<noteq> None"
    using assms(3) writeClasses_error by blast
  obtain rest where "snd (writeClasses ext dict names (writeHeader sg [])) = writeHeader sg [] @ rest"
    using writeClasses_extends by blast
  with err show ?thesis
    by (auto simp: SchemaGenerator_write_def Let_def dict_def names_def split: prod.splits option.splits)
qed


text \<open>
  What a writing function appends does not depend on the content it is given:
  it is what the function writes into an empty file.
\<close>

lemma writeRecord_append:
  "writeRecord ext self out =
     (fst (writeRecord ext self []), out @ snd (writeRecord ext self []))"
  by (simp add: writeRecord_def writeEmbeddedTypesClassMethods_def writeConstructor_def
        Let_def foldl_print split: sum.splits)
     (simp add: print_def)

lemma SchemaClass_write_append:
  "SchemaClass_write ext self out =
     (fst (SchemaClass_write ext self []), out @ snd (SchemaClass_write ext self []))"
proof (cases "schema self")
  case (RecordSchema n d fs)
  have "writeRecord ext self
      (print (''    '' @ [CHR 0x22, CHR 0x22, CHR 0x22] @ ''\<newline>''
                @ (case d of None \<Rightarrow> ''No documentation'' | Some doc \<Rightarrow> doc)
                @ ''\<newline>    '' @ [CHR 0x22, CHR 0x22, CHR 0x22])
         (print (''\<newline>\<newline>class '' @ n @ ''(ProtocolElement):'') out))
     = (fst (writeRecord ext self []),
        print (''    '' @ [CHR 0x22, CHR 0x22, CHR 0x22] @ ''\<newline>''
                @ (case d of None \<Rightarrow> ''No documentation'' | Some doc \<Rightarrow> doc)
                @ ''\<newline>    '' @ [CHR 0x22, CHR 0x22, CHR 0x22])
         (print (''\<newline>\<newline>class '' @ n @ ''(ProtocolElement):'') out)
        @ snd (writeRecord ext self []))"
    by (rule writeRecord_append)
  moreover have "writeRecord ext self
      (print (''    '' @ [CHR 0x22, CHR 0x22, CHR 0x22] @ ''\<newline>''
                @ (case d of None \<Rightarrow> ''No documentation'' | Some doc \<Rightarrow> doc)
                @ ''\<newline>    '' @ [CHR 0x22, CHR 0x22, CHR 0x22])
         (print (''\<newline>\<newline>class '' @ n @ ''(ProtocolElement):'') []))
     = (fst (writeRecord ext self []),
        print (''    '' @ [CHR 0x22, CHR 0x22, CHR 0x22] @ ''\<newline>''
                @ (case d of None \<Rightarrow> ''No documentation'' | Some doc \<Rightarrow> doc)
                @ ''\<newline>    '' @ [CHR 0x22, CHR 0x22, CHR 0x22])
         (print (''\<newline>\<newline>class '' @ n @ ''(ProtocolElement):'') [])
        @ snd (writeRecord ext self []))"
    by (rule writeRecord_append)
  ultimately show ?thesis using RecordSchema
    by (simp add: SchemaClass_write_def Let_def print_def)
qed (simp_all add: SchemaClass_write_def Let_def foldl_print, simp_all add: print_def)

text \<open>The sorted names are the names of the classes sorted by name.\<close>

lemma insort_map: "insort (f x) (map f ys) = map f (insort_key f x ys)"
  by (induction ys) simp_all

lemma sort_map: "sort (map f xs) = map f (sort_key f xs)"
  by (induction xs) (simp_all add: insort_map)

text \<open>
  The loop of \<open>write\<close> goes through the classes that raise nothing, adding
  the text of each, and stops at the first class that raises, with the text
  that class has printed by then.
\<close>

lemma writeClasses_all:
  assumes "\<forall>x \<in> set xs. dict (name x) = Some x \<and> fst (SchemaClass_write ext x []) = None"
  shows "writeClasses ext dict (map name xs @ rest) out =
         writeClasses ext dict rest (out @ concat (map (\<lambda>b. snd (SchemaClass_write ext b [])) xs))"
  using assms
proof (induction xs arbitrary: out)
  case Nil
  show ?case by simp
next
  case (Cons x xs)
  then have d: "dict (name x) = Some x" and ok: "fst (SchemaClass_write ext x []) = None"
    and rest: "\<forall>x \<in> set xs. dict (name x) = Some x \<and> fst (SchemaClass_write ext x []) = None"
    by simp_all
  have w: "SchemaClass_write ext x out = (None, out @ snd (SchemaClass_write ext x []))"
    using SchemaClass_write_append [of ext x out] ok by simp
  have "writeClasses ext dict (map name (x # xs) @ rest) out =
        writeClasses ext dict (map name xs @ rest) (out @ snd (SchemaClass_write ext x []))"
    using d w by simp
  also have "\<dots> = writeClasses ext dict rest
       ((out @ snd (SchemaClass_write ext x [])) @ concat (map (\<lambda>b. snd (SchemaClass_write ext b [])) xs))"
    using rest by (rule Cons.IH)
  finally show ?case by simp
qed

lemma writeClasses_fail:
  assumes "dict (name c) = Some c" and "SchemaClass_write ext c [] = (Some e, partial)"
  shows "writeClasses ext dict (name c # rest) out = (Some e, out @ partial)"
proof -
  have "SchemaClass_write ext c out = (Some e, out @ partial)"
    using SchemaClass_write_append [of ext c out] assms(2) by simp
  with assms(1) show ?thesis by simp
qed

text \<open>What a record has printed when its embedded-type extraction raises.\<close>

lemma SchemaClass_write_embedded_error:
  assumes rec: "schema self = RecordSchema n d fs"
    and fs: "formatSchema ext self = Inr formatted"
    and rq: "formatRequiredFields self = Inr required"
    and err: "getEmbeddedTypes self = Inl e"
  shows \<open>SchemaClass_write ext self [] =
     (Some e,
      ''\<newline>\<newline>class '' @ n @ ''(ProtocolElement):\<newline>''
      @ ''    """\<newline>'' @ (case d of None \<Rightarrow> ''No documentation'' | Some doc \<Rightarrow> doc)
      @ ''\<newline>    """\<newline>''
      @ ''    _schemaSource = """\<newline>'' @ formatted @ ''"""\<newline>''
      @ ''    schema = avro.schema.parse(_schemaSource)\<newline>''
      @ ''    requiredFields = '' @ required @ ''\<newline>''
      @ ''\<newline>''
      @ ''    @classmethod\<newline>''
      @ ''    def isEmbeddedType(cls, fieldName):\<newline>'')\<close>
  using rec fs rq err
  by (simp add: SchemaClass_write_def writeRecord_def writeEmbeddedTypesClassMethods_def
      Let_def print_def)

lemma SchemaGenerator_write_embedded_error:
  assumes dist: "distinct (map name (classes sg))"
    and split: "sort_key name (classes sg) = before @ c # after"
    and ok: "\<forall>b \<in> set before. fst (SchemaClass_write ext b []) = None"
    and c: "SchemaClass_write ext c [] = (Some e, partial)"
  shows "SchemaGenerator_write ext sg =
     (Some e, writeHeader sg [] @ concat (map (\<lambda>b. snd (SchemaClass_write ext b [])) before) @ partial)"
proof -
  define dict where "dict = foldl (\<lambda>d cls. d(name cls \<mapsto> cls)) Map.empty (classes sg)"
  have mem: "set (before @ c # after) = set (classes sg)"
    using split by (metis set_sort)
  have look: "\<And>x. x \<in> set (classes sg) \<Longrightarrow> dict (name x) = Some x"
    unfolding dict_def using dist by (rule dict_distinct)
  have names: "sort (map name (classes sg)) = map name before @ (name c # map name after)"
    using split by (simp add: sort_map)
  have b: "\<forall>x \<in> set before. dict (name x) = Some x \<and> fst (SchemaClass_write ext x []) = None"
    using ok look mem by auto
  have "dict (name c) = Some c" using look mem by auto
  then have "writeClasses ext dict (name c # map name after)
               (writeHeader sg [] @ concat (map (\<lambda>b. snd (SchemaClass_write ext b [])) before))
        = (Some e, (writeHeader sg [] @ concat (map (\<lambda>b. snd (SchemaClass_write ext b [])) before)) @ partial)"
    using c by (rule writeClasses_fail)
  with writeClasses_all [OF b, of "name c # map name after" "writeHeader sg []"]
  have "writeClasses ext dict (sort (map name (classes sg))) (writeHeader sg [])
        = (Some e, writeHeader sg [] @ concat (map (\<lambda>b. snd (SchemaClass_write ext b [])) before) @ partial)"
    by (simp add: names)
  then show ?thesis
    by (simp add: SchemaGenerator_write_def Let_def dict_def)
qed

lemma SchemaGenerator_init_version:
  "SchemaGenerator_init ext v dir outFile files = Inr sg \<Longrightarrow> version sg = v"
  by (auto simp: SchemaGenerator_init_def Let_def split: sum.splits)

text \<open>
  C9, as the code has it. An error met while the generator is built, that is
  while the schema files are read and parsed, ends the run with the output
  file as it was. An error of embedded-type extraction ends the run as well,
  but by then the output file has been emptied and written to. When the class
  \<open>c\<close> is the first one in name order to raise, and what it raises is the
  error of its embedded-type extraction, the run ends with that error and the
  output file holds exactly the header, the whole text of the classes that
  come before \<open>c\<close> in name order, and the text of \<open>c\<close> up to the line
  \<open>def isEmbeddedType(cls, fieldName):\<close>, where it stops: the rest of this
  class, the classes after it and the table of routes are not written, and
  nothing of the previous content is left. Whichever class raises first, the
  run ends with an error and the output file starts with the header. (Class
  names are taken to be distinct, so that every class is one that \<open>write\<close>
  reaches.)
\<close>

theorem generate_error_output:
  \<open>(SchemaGenerator_init ext v dir outFile files = Inl e \<longrightarrow>
      generate ext v dir outFile files old = (Some e, old))
   \<and> (SchemaGenerator_init ext v dir outFile files = Inr sg
        \<and> distinct (map name (classes sg))
        \<and> sort_key name (classes sg) = before @ c # after
        \<and> (\<forall>b \<in> set before. fst (SchemaClass_write ext b []) = None)
        \<and> schema c = RecordSchema n d fs
        \<and> formatSchema ext c = Inr formatted
        \<and> formatRequiredFields c = Inr required
        \<and> getEmbeddedTypes c = Inl e' \<longrightarrow>
        generate ext v dir outFile files old =
          (Some e',
           Some (''"""'' @ HEADER_COMMENT @ ''"""\<newline>''
             @ ''from protocol import ProtocolElement\<newline>''
             @ ''import avro.schema\<newline>''
             @ ''\<newline>''
             @ ''version = '' @ [CHR 0x27] @ drop 1 v @ [CHR 0x27] @ ''\<newline>''
             @ concat (map (\<lambda>b. snd (SchemaClass_write ext b [])) before)
             @ ''\<newline>\<newline>class '' @ n @ ''(ProtocolElement):\<newline>''
             @ ''    """\<newline>'' @ (case d of None \<Rightarrow> ''No documentation'' | Some doc \<Rightarrow> doc)
             @ ''\<newline>    """\<newline>''
             @ ''    _schemaSource = """\<newline>'' @ formatted @ ''"""\<newline>''
             @ ''    schema = avro.schema.parse(_schemaSource)\<newline>''
             @ ''    requiredFields = '' @ required @ ''\<newline>''
             @ ''\<newline>''
             @ ''    @classmethod\<newline>''
             @ ''    def isEmbeddedType(cls, fieldName):\<newline>'')))
   \<and> (SchemaGenerator_init ext v dir outFile files = Inr sg
        \<and> distinct (map name (classes sg)) \<and> c \<in> set (classes sg)
        \<and> getEmbeddedTypes c = Inl e' \<longrightarrow>
        (\<exists>err rest. generate ext v dir outFile files old
                       = (Some err, Some (writeHeader sg [] @ rest))))\<close>
proof (intro conjI impI)
  assume "SchemaGenerator_init ext v dir outFile files = Inl e"
  then show "generate ext v dir outFile files old = (Some e, old)"
    by (simp add: generate_def)
next
  assume a: "SchemaGenerator_init ext v dir outFile files = Inr sg
        \<and> distinct (map name (classes sg))
        \<and> sort_key name (classes sg) = before @ c # after
        \<and> (\<forall>b \<in> set before. fst (SchemaClass_write ext b []) = None)
        \<and> schema c = RecordSchema n d fs
        \<and> formatSchema ext c = Inr formatted
        \<and> formatRequiredFields c = Inr required
        \<and> getEmbeddedTypes c = Inl e'"
  then have init: "SchemaGenerator_init ext v dir outFile files = Inr sg"
    and dist: "distinct (map name (classes sg))"
    and split: "sort_key name (classes sg) = before @ c # after"
    and ok: "\<forall>b \<in> set before. fst (SchemaClass_write ext b []) = None"
    and rec: "schema c = RecordSchema n d fs"
    and fs: "formatSchema ext c = Inr formatted"
    and rq: "formatRequiredFields c = Inr required"
    and err: "getEmbeddedTypes c = Inl e'"
    by simp_all
  have hdr: \<open>writeHeader sg [] = ''"""'' @ HEADER_COMMENT @ ''"""\<newline>''
             @ ''from protocol import ProtocolElement\<newline>''
             @ ''import avro.schema\<newline>''
             @ ''\<newline>''
             @ ''version = '' @ [CHR 0x27] @ drop 1 v @ [CHR 0x27] @ ''\<newline>''\<close>
    using SchemaGenerator_init_version [OF init]
    by (simp add: writeHeader_def Let_def print_def)
  from SchemaGenerator_write_embedded_error
    [OF dist split ok SchemaClass_write_embedded_error [OF rec fs rq err]]
  show \<open>generate ext v dir outFile files old =
          (Some e',
           Some (''"""'' @ HEADER_COMMENT @ ''"""\<newline>''
             @ ''from protocol import ProtocolElement\<newline>''
             @ ''import avro.schema\<newline>''
             @ ''\<newline>''
             @ ''version = '' @ [CHR 0x27] @ drop 1 v @ [CHR 0x27] @ ''\<newline>''
             @ concat (map (\<lambda>b. snd (SchemaClass_write ext b [])) before)
             @ ''\<newline>\<newline>class '' @ n @ ''(ProtocolElement):\<newline>''
             @ ''    """\<newline>'' @ (case d of None \<Rightarrow> ''No documentation'' | Some doc \<Rightarrow> doc)
             @ ''\<newline>    """\<newline>''
             @ ''    _schemaSource = """\<newline>'' @ formatted @ ''"""\<newline>''
             @ ''    schema = avro.schema.parse(_schemaSource)\<newline>''
             @ ''    requiredFields = '' @ required @ ''\<newline>''
             @ ''\<newline>''
             @ ''    @classmethod\<newline>''
             @ ''    def isEmbeddedType(cls, fieldName):\<newline>''))\<close>
    unfolding hdr using init by (simp add: generate_def)
next
  assume a: "SchemaGenerator_init ext v dir outFile files = Inr sg
        \<and> distinct (map name (classes sg)) \<and> c \<in> set (classes sg)
        \<and> getEmbeddedTypes c = Inl e'"
  then obtain err rest where "SchemaGenerator_write ext sg = (Some err, writeHeader sg [] @ rest)"
    using SchemaGenerator_write_error [of sg c e' ext] by blast
  with a show "\<exists>err rest. generate ext v dir outFile files old
                       = (Some err, Some (writeHeader sg [] @ rest))"
    by (simp add: generate_def)
qed

text \<open>
  The theorem at the examples. A file that does not parse leaves the previous
  content of the output file. The directory with the enum Base and the record
  Call, whose union has null as its second branch, replaces the previous
  content by the header, the whole class Base and the beginning of the class
  Call.
\<close>

theorem generate_error_output_witness:
  \<open>generate nullSecondExternals ''v0.5.1'' ''schemas'' ''out.py''
      [(''Broken.avsc'', ''not a schema'')] (Some ''previous content'')
     = (Some SchemaParseException, Some ''previous content'')
   \<and> generate nullSecondExternals ''v0.5.1'' ''schemas'' ''out.py'' enumAndCallFiles
        (Some ''previous content'')
     = (Some SchemaUnionAssumptionsViolated,
        Some (''"""'' @ HEADER_COMMENT @ ''"""\<newline>''
          @ ''from protocol import ProtocolElement\<newline>''
          @ ''import avro.schema\<newline>''
          @ ''\<newline>''
          @ ''version = '' @ [CHR 0x27] @ ''0.5.1'' @ [CHR 0x27] @ ''\<newline>''
          @ ''\<newline>\<newline>class Base(object):\<newline>''
          @ ''    """\<newline>No documentation\<newline>    """\<newline>''
          @ ''    A = "A"\<newline>''
          @ ''    C = "C"\<newline>''
          @ ''\<newline>\<newline>class Call(ProtocolElement):\<newline>''
          @ ''    """\<newline>No documentation\<newline>    """\<newline>''
          @ ''    _schemaSource = """\<newline>call"""\<newline>''
          @ ''    schema = avro.schema.parse(_schemaSource)\<newline>''
          @ ''    requiredFields = set([])\<newline>''
          @ ''\<newline>''
          @ ''    @classmethod\<newline>''
          @ ''    def isEmbeddedType(cls, fieldName):\<newline>''))
   \<and> (\<exists>sg err rest.
         SchemaGenerator_init nullSecondExternals ''v0.5.1'' ''schemas'' ''out.py'' enumAndCallFiles
           = Inr sg
         \<and> generate nullSecondExternals ''v0.5.1'' ''schemas'' ''out.py'' enumAndCallFiles None
           = (Some err, Some (writeHeader sg [] @ rest)))\<close>
proof -
  define sg where
    "sg = \<lparr>version = ''v0.5.1'', schemaDir = ''schemas'', outputFile = ''out.py'',
           classes = [callClass, baseClass], requestClassNames = [], responseClassNames = [],
           postSignatures = []\<rparr>"
  define info where
    "info = Field ''info'' (UnionSchema [PrimitiveSchema ''string'', PrimitiveSchema ''null''])
              True ''None''"
  have broken: "SchemaGenerator_init nullSecondExternals ''v0.5.1'' ''schemas'' ''out.py''
      [(''Broken.avsc'', ''not a schema'')] = Inl SchemaParseException"
    by (simp add: SchemaGenerator_init_def SchemaClass_init_def nullSecondExternals_def)
  have init: "SchemaGenerator_init nullSecondExternals ''v0.5.1'' ''schemas'' ''out.py''
      enumAndCallFiles = Inr sg"
    by (simp add: SchemaGenerator_init_def SchemaClass_init_def nullSecondExternals_def
        enumAndCallFiles_def sg_def callClass_def callSchema_def baseClass_def baseSchema_def
        matchAt_def startswith_def)
  have dist: "distinct (map name (classes sg))"
    and mem: "callClass \<in> set (classes sg)"
    by (simp_all add: sg_def callClass_def baseClass_def)
  have sorted: "sort_key name (classes sg) = [baseClass] @ callClass # []"
    by (simp add: sg_def callClass_def baseClass_def)
  have base: \<open>SchemaClass_write nullSecondExternals baseClass [] =
      (None, ''\<newline>\<newline>class Base(object):\<newline>''
          @ ''    """\<newline>No documentation\<newline>    """\<newline>''
          @ ''    A = "A"\<newline>''
          @ ''    C = "C"\<newline>'')\<close>
    by (simp add: SchemaClass_write_def baseClass_def baseSchema_def Let_def print_def)
  then have ok: "\<forall>b \<in> set [baseClass]. fst (SchemaClass_write nullSecondExternals b []) = None"
    by simp
  have rec: "schema callClass = RecordSchema ''Call'' None [info]"
    by (simp add: callClass_def callSchema_def info_def)
  have fs: "formatSchema nullSecondExternals callClass = Inr ''call''"
    by (simp add: formatSchema_def nullSecondExternals_def callClass_def)
  have rq: "formatRequiredFields callClass = Inr ''set([])''"
    by (simp add: formatRequiredFields_def getFields_def callClass_def callSchema_def)
  have raises: "getEmbeddedTypes callClass = Inl SchemaUnionAssumptionsViolated"
    by (simp add: getEmbeddedTypes_def getFields_def callClass_def callSchema_def)
  from generate_error_output
    [of nullSecondExternals "''v0.5.1''" "''schemas''" "''out.py''"
        "[(''Broken.avsc'', ''not a schema'')]" SchemaParseException "Some ''previous content''"]
    broken
  have first: "generate nullSecondExternals ''v0.5.1'' ''schemas'' ''out.py''
      [(''Broken.avsc'', ''not a schema'')] (Some ''previous content'')
     = (Some SchemaParseException, Some ''previous content'')"
    by blast
  from generate_error_output
    [of nullSecondExternals "''v0.5.1''" "''schemas''" "''out.py''" enumAndCallFiles _
        "Some ''previous content''" sg "[baseClass]" callClass "[]" "''Call''" None "[info]"
        "''call''" "''set([])''" SchemaUnionAssumptionsViolated]
    init dist sorted ok rec fs rq raises
  have \<open>generate nullSecondExternals ''v0.5.1'' ''schemas'' ''out.py'' enumAndCallFiles
        (Some ''previous content'')
     = (Some SchemaUnionAssumptionsViolated,
        Some (''"""'' @ HEADER_COMMENT @ ''"""\<newline>''
             @ ''from protocol import ProtocolElement\<newline>''
             @ ''import avro.schema\<newline>''
             @ ''\<newline>''
             @ ''version = '' @ [CHR 0x27] @ drop 1 ''v0.5.1'' @ [CHR 0x27] @ ''\<newline>''
             @ concat (map (\<lambda>b. snd (SchemaClass_write nullSecondExternals b [])) [baseClass])
             @ ''\<newline>\<newline>class '' @ ''Call'' @ ''(ProtocolElement):\<newline>''
             @ ''    """\<newline>'' @ (case None of None \<Rightarrow> ''No documentation'' | Some doc \<Rightarrow> doc)
             @ ''\<newline>    """\<newline>''
             @ ''    _schemaSource = """\<newline>'' @ ''call'' @ ''"""\<newline>''
             @ ''    schema = avro.schema.parse(_schemaSource)\<newline>''
             @ ''    requiredFields = '' @ ''set([])'' @ ''\<newline>''
             @ ''\<newline>''
             @ ''    @classmethod\<newline>''
             @ ''    def isEmbeddedType(cls, fieldName):\<newline>''))\<close>
    by blast
  then have second: \<open>generate nullSecondExternals ''v0.5.1'' ''schemas'' ''out.py'' enumAndCallFiles
        (Some ''previous content'')
     = (Some SchemaUnionAssumptionsViolated,
        Some (''"""'' @ HEADER_COMMENT @ ''"""\<newline>''
          @ ''from protocol import ProtocolElement\<newline>''
          @ ''import avro.schema\<newline>''
          @ ''\<newline>''
          @ ''version = '' @ [CHR 0x27] @ ''0.5.1'' @ [CHR 0x27] @ ''\<newline>''
          @ ''\<newline>\<newline>class Base(object):\<newline>''
          @ ''    """\<newline>No documentation\<newline>    """\<newline>''
          @ ''    A = "A"\<newline>''
          @ ''    C = "C"\<newline>''
          @ ''\<newline>\<newline>class Call(ProtocolElement):\<newline>''
          @ ''    """\<newline>No documentation\<newline>    """\<newline>''
          @ ''    _schemaSource = """\<newline>call"""\<newline>''
          @ ''    schema = avro.schema.parse(_schemaSource)\<newline>''
          @ ''    requiredFields = set([])\<newline>''
          @ ''\<newline>''
          @ ''    @classmethod\<newline>''
          @ ''    def isEmbeddedType(cls, fieldName):\<newline>''))\<close>
    by (simp add: base)
  from generate_error_output
    [of nullSecondExternals "''v0.5.1''" "''schemas''" "''out.py''" enumAndCallFiles _ None sg
        _ callClass _ _ _ _ _ _ SchemaUnionAssumptionsViolated]
    init raises dist mem
  have "\<exists>err rest. generate nullSecondExternals ''v0.5.1'' ''schemas'' ''out.py'' enumAndCallFiles None
           = (Some err, Some (writeHeader sg [] @ rest))"
    by blast
  with init first second show ?thesis by blast
qed

text \<open>
  The claim as stated fails on the record Call: extraction raises the
  union-shape error, the run fails, and the output file, absent before the
  run, now holds the header and the beginning of the class Call, without its
  end and without the table of routes.
\<close>

theorem generate_union_error_partial_output:
  \<open>generate nullSecondExternals ''v0.5.1'' ''schemas'' ''_protocol_definitions.py''
      nullSecondFiles None =
    (Some SchemaUnionAssumptionsViolated,
     Some (''"""'' @ HEADER_COMMENT @ ''"""\<newline>''
       @ ''from protocol import ProtocolElement\<newline>''
       @ ''import avro.schema\<newline>''
       @ ''\<newline>''
       @ ''version = '' @ [CHR 0x27] @ ''0.5.1'' @ [CHR 0x27] @ ''\<newline>''
       @ ''\<newline>\<newline>class Call(ProtocolElement):\<newline>''
       @ ''    """\<newline>No documentation\<newline>    """\<newline>''
       @ ''    _schemaSource = """\<newline>call"""\<newline>''
       @ ''    schema = avro.schema.parse(_schemaSource)\<newline>''
       @ ''    requiredFields = set([])\<newline>''
       @ ''\<newline>''
       @ ''    @classmethod\<newline>''
       @ ''    def isEmbeddedType(cls, fieldName):\<newline>''))\<close>
  by (simp add: generate_def SchemaGenerator_init_def SchemaClass_init_def
      nullSecondExternals_def nullSecondFiles_def callSchema_def matchAt_def startswith_def
      SchemaGenerator_write_def writeHeader_def SchemaClass_write_def writeRecord_def
      formatSchema_def formatRequiredFields_def getFields_def
      writeEmbeddedTypesClassMethods_def getEmbeddedTypes_def print_def Let_def)

section \<open>Serialization round trip\<close>

lemma toJsonDict_fields:
  "toJsonDict reg (PObj T attrs) = PDict (map (\<lambda>(f, v). (f, serializeField reg T f v)) attrs)"
  by (simp add: serializeField_def)

lemma fromJsonDict_fields:
  "fromJsonDict reg T (PDict m) =
     PObj T (map (\<lambda>(f, dflt). (f, case map_of m f of None \<Rightarrow> dflt
                                       | Some j \<Rightarrow> constructField reg T f j))
              (fieldDefaults (reg T)))"
  by (auto simp: constructField_def split: option.splits)

text \<open>
  Looking every field up in the serialized attributes and undoing the
  serialization gives the attributes back, when the keys are those of the
  fields, in their order and distinct.
\<close>

lemma rebuild_attrs:
  assumes keys: "map fst attrs = map fst dfl"
    and dist: "distinct (map fst attrs)"
    and inv: "\<forall>(f, v) \<in> set attrs. de f (ser f v) = v"
  shows "map (\<lambda>(f, dflt). (f, case map_of (map (\<lambda>(f, v). (f, ser f v)) attrs) f of
                                  None \<Rightarrow> dflt | Some j \<Rightarrow> de f j)) dfl = attrs"
proof (rule nth_equalityI)
  from keys have len: "length attrs = length dfl"
    by (metis length_map)
  then show "length (map (\<lambda>(f, dflt). (f, case map_of (map (\<lambda>(f, v). (f, ser f v)) attrs) f of
                                  None \<Rightarrow> dflt | Some j \<Rightarrow> de f j)) dfl) = length attrs"
    by simp
  fix i assume "i < length (map (\<lambda>(f, dflt). (f, case map_of (map (\<lambda>(f, v). (f, ser f v)) attrs) f of
                                  None \<Rightarrow> dflt | Some j \<Rightarrow> de f j)) dfl)"
  then have i: "i < length dfl" "i < length attrs" using len by simp_all
  obtain f v where fv: "attrs ! i = (f, v)" by (cases "attrs ! i")
  obtain g d where gd: "dfl ! i = (g, d)" by (cases "dfl ! i")
  have "map fst attrs ! i = map fst dfl ! i" using keys by simp
  with i fv gd have g: "g = f" by simp
  have mem: "(f, v) \<in> set attrs" using i fv by (metis nth_mem)
  then have "(f, ser f v) \<in> set (map (\<lambda>(f, v). (f, ser f v)) attrs)" by force
  moreover have "distinct (map fst (map (\<lambda>(f, v). (f, ser f v)) attrs))"
    using dist by (simp add: case_prod_unfold comp_def)
  ultimately have look: "map_of (map (\<lambda>(f, v). (f, ser f v)) attrs) f = Some (ser f v)"
    by (rule map_of_is_SomeI [rotated])
  from inv mem have "de f (ser f v) = v" by auto
  with look i gd g fv
  show "map (\<lambda>(f, dflt). (f, case map_of (map (\<lambda>(f, v). (f, ser f v)) attrs) f of
                                  None \<Rightarrow> dflt | Some j \<Rightarrow> de f j)) dfl ! i = attrs ! i"
    by simp
qed

text \<open>
  C8. For every well-formed Protocol Object \<open>obj\<close> of the record type
  \<open>T\<close>, fromJsonDict with \<open>T\<close> applied to toJsonDict of \<open>obj\<close> is
  \<open>obj\<close> again.
\<close>

theorem fromJsonDict_toJsonDict:
  "wellFormed reg T obj \<Longrightarrow> fromJsonDict reg T (toJsonDict reg obj) = obj"
proof (induction reg T obj rule: wellFormed.induct)
  case (1 reg T T' attrs)
  from "1.prems" have T: "T' = T"
    and keys: "map fst attrs = map fst (fieldDefaults (reg T))"
    and dist: "distinct (map fst attrs)"
    and wf: "\<forall>(f, v) \<in> set attrs.
            case map_of (embeddedTypes (reg T)) f of
              None \<Rightarrow> plain v
            | Some U \<Rightarrow>
                (case v of
                   PNone \<Rightarrow> True
                 | PList vs \<Rightarrow> list_all (wellFormed reg U) vs
                 | PObj _ _ \<Rightarrow> wellFormed reg U v
                 | _ \<Rightarrow> False)"
    by (auto simp: list_all_iff)
  have inv: "\<forall>(f, v) \<in> set attrs. constructField reg T f (serializeField reg T f v) = v"
  proof (intro ballI, clarify)
    fix f v assume mem: "(f, v) \<in> set attrs"
    show "constructField reg T f (serializeField reg T f v) = v"
    proof (cases "map_of (embeddedTypes (reg T)) f")
      case None
      then show ?thesis by (simp add: constructField_def serializeField_def)
    next
      case (Some U)
      with wf mem have shape: "case v of
                   PNone \<Rightarrow> True
                 | PList vs \<Rightarrow> list_all (wellFormed reg U) vs
                 | PObj _ _ \<Rightarrow> wellFormed reg U v
                 | _ \<Rightarrow> False" by fastforce
      show ?thesis
      proof (cases v)
        case PNone
        with Some show ?thesis by (simp add: constructField_def serializeField_def)
      next
        case (PList vs)
        with shape have all: "\<forall>x \<in> set vs. wellFormed reg U x" by (simp add: list_all_iff)
        have "map (fromJsonDict reg U \<circ> toJsonDict reg) vs = vs"
        proof (rule map_idI)
          fix x assume x: "x \<in> set vs"
          with all have "wellFormed reg U x" by simp
          from "1.IH"(1) [OF mem refl Some PList x this]
          show "(fromJsonDict reg U \<circ> toJsonDict reg) x = x" by simp
        qed
        then show ?thesis using Some PList
          by (simp add: constructField_def serializeField_def)
      next
        case (PObj U' attrs')
        with shape have w: "wellFormed reg U v" by (simp del: wellFormed.simps)
        from "1.IH"(2) [OF mem refl Some PObj w]
        have rt: "fromJsonDict reg U (toJsonDict reg v) = v" .
        have ser: "serializeField reg T f v = toJsonDict reg v"
          using Some PObj by (simp add: serializeField_def del: toJsonDict.simps)
        obtain m where m: "toJsonDict reg v = PDict m"
          unfolding PObj toJsonDict_fields by blast
        have "constructField reg T f (PDict m) = fromJsonDict reg U (PDict m)"
          using Some by (simp add: constructField_def del: fromJsonDict.simps)
        with ser m rt show ?thesis by (simp del: fromJsonDict.simps)
      qed (use shape in simp_all)
    qed
  qed
  have "fromJsonDict reg T (toJsonDict reg (PObj T attrs)) =
      PObj T (map (\<lambda>(f, dflt). (f, case map_of (map (\<lambda>(f, v). (f, serializeField reg T f v)) attrs) f of
                                  None \<Rightarrow> dflt | Some j \<Rightarrow> constructField reg T f j))
                (fieldDefaults (reg T)))"
    by (simp only: toJsonDict_fields fromJsonDict_fields)
  also have "\<dots> = PObj T attrs"
    using rebuild_attrs [of attrs "fieldDefaults (reg T)" "constructField reg T"
        "serializeField reg T", OF keys dist inv] by simp
  finally show ?case using T by simp
qed simp_all

text \<open>
  The theorem at the response of the examples, which has a sequence of two
  alignments, one with a nested object and one with null in its place.
\<close>

theorem fromJsonDict_toJsonDict_witness:
  "wellFormed readsRegistry ''SearchReadsResponse'' readsResponse
   \<and> fromJsonDict readsRegistry ''SearchReadsResponse'' (toJsonDict readsRegistry readsResponse)
       = readsResponse"
proof -
  have wf: "wellFormed readsRegistry ''SearchReadsResponse'' readsResponse"
    by (simp add: readsResponse_def readsRegistry_def)
  from wf fromJsonDict_toJsonDict [OF wf] show ?thesis by simp
qed

section \<open>Exceptions outside the taxonomy\<close>

text \<open>
  C5. For an exception that is not of the taxonomy, whatever its message, the
  central handler returns the status 500 and a body whose message is the
  fixed ServerError message; the response is the same for every message of
  the original exception, so that message does not reach the wire.
\<close>

theorem handleException_unrecognized:
  "fst (handleException tc (Unrecognized msg)) = 500
   \<and> message (snd (handleException tc (Unrecognized msg))) = serverErrorMessage tc
   \<and> handleException tc (Unrecognized msg) = handleException tc (Unrecognized msg')"
  by (simp add: handleException_def)

end
